theory Spec2Isabelle
  imports Complex_Main "HOL-Library.Sublist" "HOL-Library.Log_Nat"
begin

chapter \<open>The model\<close>

section \<open>Text\<close>

text \<open>
  A Python \<open>str\<close> is modelled by the bytes of its UTF-8 encoding, one \<open>char\<close> per
  byte: ASCII text is written as it stands, and the symbols of the templates that are
  not ASCII are written as their bytes. The number of code points of a text is the
  number of its bytes that are not continuation bytes.
\<close>

definition py_len :: "string \<Rightarrow> nat" where
  "py_len s = length (filter (\<lambda>c. \<not> (128 \<le> (of_char c :: nat) \<and> (of_char c :: nat) < 192)) s)"

text \<open>
  The white space of \<open>str.strip\<close>: the code points U+0009..U+000D, U+001C..U+0020,
  U+0085, U+00A0, U+1680, U+2000..U+200A, U+2028, U+2029, U+202F, U+205F and U+3000.
  \<open>ws_bytes s\<close> is the number of bytes of the white space code point that \<open>s\<close> starts
  with, and 0 when it starts with none.
\<close>

definition ascii_space :: "char \<Rightarrow> bool" where
  "ascii_space c = (let n = (of_char c :: nat) in (9 \<le> n \<and> n \<le> 13) \<or> (28 \<le> n \<and> n \<le> 32))"

fun ws_bytes :: "string \<Rightarrow> nat" where
  "ws_bytes [] = 0"
| "ws_bytes [a] = (if ascii_space a then 1 else 0)"
| "ws_bytes [a, b] =
     (if ascii_space a then 1
      else if a = CHR 0xC2 \<and> (b = CHR 0x85 \<or> b = CHR 0xA0) then 2 else 0)"
| "ws_bytes (a # b # c # _) =
     (if ascii_space a then 1
      else if a = CHR 0xC2 \<and> (b = CHR 0x85 \<or> b = CHR 0xA0) then 2
      else if a = CHR 0xE1 \<and> b = CHR 0x9A \<and> c = CHR 0x80 then 3
      else if a = CHR 0xE2 \<and> b = CHR 0x80 \<and>
              ((128 \<le> (of_char c :: nat) \<and> (of_char c :: nat) \<le> 138) \<or>
               c = CHR 0xA8 \<or> c = CHR 0xA9 \<or> c = CHR 0xAF) then 3
      else if a = CHR 0xE2 \<and> b = CHR 0x81 \<and> c = CHR 0x9F then 3
      else if a = CHR 0xE3 \<and> b = CHR 0x80 \<and> c = CHR 0x80 then 3
      else 0)"

text \<open>
  The same for the end of a text: \<open>ws_bytes_end r\<close> reads the reversed text \<open>r\<close>, so
  the bytes of the last code point come in reverse order.
\<close>

fun ws_bytes_end :: "string \<Rightarrow> nat" where
  "ws_bytes_end [] = 0"
| "ws_bytes_end [c] = (if ascii_space c then 1 else 0)"
| "ws_bytes_end [c, b] =
     (if ascii_space c then 1 else if ws_bytes [b, c] = 2 then 2 else 0)"
| "ws_bytes_end (c # b # a # _) =
     (if ascii_space c then 1
      else if ws_bytes [b, c] = 2 then 2
      else if ws_bytes [a, b, c] = 3 then 3 else 0)"

function lstrip :: "string \<Rightarrow> string" where
  "lstrip s = (if ws_bytes s = 0 then s else lstrip (drop (ws_bytes s) s))"
  by pat_completeness auto
termination
proof (relation "measure length")
  fix s :: string
  assume "ws_bytes s \<noteq> 0"
  then have "s \<noteq> []" by (cases s) auto
  with \<open>ws_bytes s \<noteq> 0\<close> show "(drop (ws_bytes s) s, s) \<in> measure length" by simp
qed simp

declare lstrip.simps [simp del]

function rstrip_rev :: "string \<Rightarrow> string" where
  "rstrip_rev r = (if ws_bytes_end r = 0 then r else rstrip_rev (drop (ws_bytes_end r) r))"
  by pat_completeness auto
termination
proof (relation "measure length")
  fix r :: string
  assume "ws_bytes_end r \<noteq> 0"
  then have "r \<noteq> []" by (cases r) auto
  with \<open>ws_bytes_end r \<noteq> 0\<close> show "(drop (ws_bytes_end r) r, r) \<in> measure length" by simp
qed simp

declare rstrip_rev.simps [simp del]

definition strip :: "string \<Rightarrow> string" where
  "strip s = rev (rstrip_rev (rev (lstrip s)))"

section \<open>Data model\<close>

text \<open>
  The records of the four models, with the fields the methods below read or write.
  An \<open>Html\<close> field holds a text or \<open>False\<close>: \<open>None\<close> is \<open>False\<close>. A \<open>Selection\<close> field
  that is not required holds one of its keys or \<open>False\<close>.
\<close>

type_synonym uid = nat

datatype mood = happy | sad | excited | angry | peaceful | anxious | grateful | tired

datatype state = draft | published | archived

record date =
  year :: int
  month :: int
  day :: int

record datetime =
  on_date :: date
  hour :: int
  minute :: int
  second :: int

definition date_le :: "date \<Rightarrow> date \<Rightarrow> bool" where
  "date_le a b =
     (year a < year b \<or> (year a = year b \<and>
       (month a < month b \<or> (month a = month b \<and> day a \<le> day b))))"

definition date_less :: "date \<Rightarrow> date \<Rightarrow> bool" where
  "date_less a b = (date_le a b \<and> a \<noteq> b)"

definition datetime_le :: "datetime \<Rightarrow> datetime \<Rightarrow> bool" where
  "datetime_le a b =
     (date_less (on_date a) (on_date b) \<or> (on_date a = on_date b \<and>
       (hour a < hour b \<or> (hour a = hour b \<and>
         (minute a < minute b \<or> (minute a = minute b \<and> second a \<le> second b))))))"

record entry =
  eid :: nat
  name :: string
  content :: "string option"
  notebook_id :: nat
  tag_ids :: "nat list"
  user_id :: uid
  entry_date :: date
  write_date :: datetime
  state :: "state option"
  word_count :: int
  char_count :: int
  is_favorite :: bool
  mood :: "mood option"
  current_version :: int

record version =
  vid :: nat
  entry_id :: nat
  created_by :: uid
  version_number :: int
  version_content :: "string option"
  version_word_count :: int
  version_char_count :: int
  create_date :: datetime

record notebook =
  nid :: nat
  notebook_name :: string
  notebook_user_id :: uid

record tag =
  tid :: nat
  tag_name :: string

text \<open>
  The database: the rows of each table in the order of their creation, and the
  sequences that number the rows of the entry table and of the version table.
\<close>

record db =
  entries :: "entry list"
  versions :: "version list"
  notebooks :: "notebook list"
  tags :: "tag list"
  entry_seq :: nat
  version_seq :: nat

text \<open>
  The environment of a call: the acting user (\<open>env.user\<close>), the clock, the
  library function \<open>html.unescape\<close>, which is a parameter here, and what the platform
  decides: whether \<open>strftime\<close> of the C library writes a year below 1000 with four
  digits or as it is.
\<close>

record env =
  user :: uid
  now :: datetime
  unescape :: "string \<Rightarrow> string"
  pads_year :: bool

datatype error =
  MissingError
  | ValueError
  | ValidationError string
  | IntegrityError string
  | UserError string
  | AttributeError string

text \<open>Python's truth value of a content: \<open>False\<close> and the empty text are false.\<close>

definition truthy :: "string option \<Rightarrow> bool" where
  "truthy c = (c \<noteq> None \<and> c \<noteq> Some [])"

definition browse_entry :: "db \<Rightarrow> nat \<Rightarrow> entry option" where
  "browse_entry d i = find (\<lambda>e. eid e = i) (entries d)"

definition browse_version :: "db \<Rightarrow> nat \<Rightarrow> version option" where
  "browse_version d i = find (\<lambda>v. vid v = i) (versions d)"

definition update_entry :: "nat \<Rightarrow> (entry \<Rightarrow> entry) \<Rightarrow> db \<Rightarrow> db" where
  "update_entry i f d = d\<lparr>entries := map (\<lambda>e. if eid e = i then f e else e) (entries d)\<rparr>"

text \<open>The field \<open>version_ids\<close> of an entry: its versions, oldest first.\<close>

definition version_ids :: "db \<Rightarrow> nat \<Rightarrow> version list" where
  "version_ids d i = filter (\<lambda>v. entry_id v = i) (versions d)"

section \<open>Numbers and dates as text\<close>

text \<open>\<open>str\<close> of an integer, and a number written with two and with four digits.\<close>

definition digit :: "nat \<Rightarrow> char" where
  "digit n = char_of (48 + n)"

function digits :: "nat \<Rightarrow> string" where
  "digits n = (if n < 10 then [digit n] else digits (n div 10) @ [digit (n mod 10)])"
  by pat_completeness auto
termination
  by (relation "measure id") auto

declare digits.simps [simp del]

definition str_int :: "int \<Rightarrow> string" where
  "str_int i = (if i < 0 then CHR ''-'' # digits (nat (- i)) else digits (nat i))"

definition pad2 :: "int \<Rightarrow> string" where
  "pad2 i = (if 0 \<le> i \<and> i < 10 then CHR ''0'' # str_int i else str_int i)"

definition pad4 :: "int \<Rightarrow> string" where
  "pad4 i =
     (if 0 \<le> i \<and> i < 10 then ''000'' @ str_int i
      else if 0 \<le> i \<and> i < 100 then ''00'' @ str_int i
      else if 0 \<le> i \<and> i < 1000 then CHR ''0'' # str_int i
      else str_int i)"

definition month_name :: "int \<Rightarrow> string" where
  "month_name m =
     (if m = 1 then ''January'' else if m = 2 then ''February'' else if m = 3 then ''March''
      else if m = 4 then ''April'' else if m = 5 then ''May'' else if m = 6 then ''June''
      else if m = 7 then ''July'' else if m = 8 then ''August''
      else if m = 9 then ''September'' else if m = 10 then ''October''
      else if m = 11 then ''November'' else ''December'')"

text \<open>
  \<open>str\<close> of a date and of a time without microseconds: the year has four digits.
\<close>

definition str_date :: "date \<Rightarrow> string" where
  "str_date dt = pad4 (year dt) @ ''-'' @ pad2 (month dt) @ ''-'' @ pad2 (day dt)"

definition str_datetime :: "datetime \<Rightarrow> string" where
  "str_datetime t =
     str_date (on_date t) @ '' '' @ pad2 (hour t) @ '':'' @ pad2 (minute t) @ '':'' @
     pad2 (second t)"

text \<open>
  \<open>strftime\<close>. The field \<open>%Y\<close> is the year as the C library writes it: from the year
  1000 on its digits; below, with four digits on some platforms and as it is on others.
  Then \<open>strftime('%Y-%m-%d')\<close>, \<open>strftime('%B %d, %Y')\<close>, \<open>strftime('%Y-%m-%d %H:%M')\<close> and
  \<open>strftime('%B %d, %Y at %H:%M')\<close>.
\<close>

definition percent_Y :: "env \<Rightarrow> int \<Rightarrow> string" where
  "percent_Y env y = (if pads_year env then pad4 y else str_int y)"

definition ymd :: "env \<Rightarrow> date \<Rightarrow> string" where
  "ymd env dt = percent_Y env (year dt) @ ''-'' @ pad2 (month dt) @ ''-'' @ pad2 (day dt)"

definition long_date :: "env \<Rightarrow> date \<Rightarrow> string" where
  "long_date env dt =
     month_name (month dt) @ '' '' @ pad2 (day dt) @ '', '' @ percent_Y env (year dt)"

definition ymd_hm :: "env \<Rightarrow> datetime \<Rightarrow> string" where
  "ymd_hm env t = ymd env (on_date t) @ '' '' @ pad2 (hour t) @ '':'' @ pad2 (minute t)"

definition long_date_hm :: "env \<Rightarrow> datetime \<Rightarrow> string" where
  "long_date_hm env t =
     long_date env (on_date t) @ '' at '' @ pad2 (hour t) @ '':'' @ pad2 (minute t)"

section \<open>Regular expressions\<close>

text \<open>
  The patterns of the source, read over the bytes of a text. \<open>rmatch r s\<close> lists what
  is left of \<open>s\<close> after each way \<open>r\<close> matches a prefix of it, in the order in which the
  backtracking matcher of \<open>re\<close> tries them: the longer repetition first. The head of
  the list is the match \<open>re\<close> finds at this position.
\<close>

datatype re =
  Any "char \<Rightarrow> bool"
  | Lit string
  | Seq re re
  | Alt re re
  | Star re

function rmatch :: "re \<Rightarrow> string \<Rightarrow> string list" where
  "rmatch (Any P) s = (case s of [] \<Rightarrow> [] | c # cs \<Rightarrow> if P c then [cs] else [])"
| "rmatch (Lit l) s = (if take (length l) s = l then [drop (length l) s] else [])"
| "rmatch (Seq a b) s = concat (map (rmatch b) (rmatch a s))"
| "rmatch (Alt a b) s = rmatch a s @ rmatch b s"
| "rmatch (Star a) s =
     concat (map (\<lambda>s'. if length s' < length s then rmatch (Star a) s' else []) (rmatch a s))
     @ [s]"
  by pat_completeness auto
termination
  by (relation "measures [\<lambda>(r, s). size r, \<lambda>(r, s). length s]") auto

definition Opt :: "re \<Rightarrow> re" where
  "Opt r = Alt r (Lit [])"

definition Plus :: "re \<Rightarrow> re" where
  "Plus r = Seq r (Star r)"

text \<open>
  \<open>re.sub(r, repl, s)\<close> for a pattern that matches no empty text and a replacement
  without group references: from left to right, the match at the first position that
  has one is replaced and the scan goes on behind it.
\<close>

function re_sub :: "re \<Rightarrow> string \<Rightarrow> string \<Rightarrow> string" where
  "re_sub r repl [] = []"
| "re_sub r repl (c # cs) =
     (case rmatch r (c # cs) of
        [] \<Rightarrow> c # re_sub r repl cs
      | rest # _ \<Rightarrow>
          if length rest < length (c # cs) then repl @ re_sub r repl rest
          else c # re_sub r repl cs)"
  by pat_completeness auto
termination
  by (relation "measure (\<lambda>(r, repl, s). length s)") auto

text \<open>
  The classes of the patterns. \<open>[^>]\<close> is read byte by byte: no byte of a code point
  other than \<open>>\<close> is the byte of \<open>>\<close>. \<open>\s\<close> is one white space code point, of one, two
  or three bytes. A letter under \<open>re.IGNORECASE\<close> matches both of its cases, and \<open>s\<close>,
  \<open>k\<close> and \<open>i\<close> also the letters U+017F, U+212A, U+0130 and U+0131.
\<close>

definition not_gt :: re where
  "not_gt = Any (\<lambda>c. c \<noteq> CHR ''>'')"

definition space :: re where
  "space =
     Alt (Any ascii_space)
    (Alt (Seq (Lit [CHR 0xC2]) (Any (\<lambda>c. c = CHR 0x85 \<or> c = CHR 0xA0)))
    (Alt (Lit [CHR 0xE1, CHR 0x9A, CHR 0x80])
    (Alt (Seq (Lit [CHR 0xE2, CHR 0x80])
            (Any (\<lambda>c. (128 \<le> (of_char c :: nat) \<and> (of_char c :: nat) \<le> 138) \<or>
                       c = CHR 0xA8 \<or> c = CHR 0xA9 \<or> c = CHR 0xAF)))
    (Alt (Lit [CHR 0xE2, CHR 0x81, CHR 0x9F])
         (Lit [CHR 0xE3, CHR 0x80, CHR 0x80])))))"

definition upper :: "char \<Rightarrow> char" where
  "upper c =
     (if 97 \<le> (of_char c :: nat) \<and> (of_char c :: nat) \<le> 122
      then char_of ((of_char c :: nat) - 32) else c)"

definition letter :: "char \<Rightarrow> re" where
  "letter c =
     (if c = CHR ''s'' then Alt (Any (\<lambda>x. x = c \<or> x = upper c)) (Lit [CHR 0xC5, CHR 0xBF])
      else if c = CHR ''k''
        then Alt (Any (\<lambda>x. x = c \<or> x = upper c)) (Lit [CHR 0xE2, CHR 0x84, CHR 0xAA])
      else if c = CHR ''i''
        then Alt (Any (\<lambda>x. x = c \<or> x = upper c))
                 (Seq (Lit [CHR 0xC4]) (Any (\<lambda>x. x = CHR 0xB0 \<or> x = CHR 0xB1)))
      else Any (\<lambda>x. x = c \<or> x = upper c))"

text \<open>A literal text under \<open>re.IGNORECASE\<close>.\<close>

fun nocase :: "string \<Rightarrow> re" where
  "nocase [] = Lit []"
| "nocase (c # cs) = Seq (letter c) (nocase cs)"

text \<open>The pattern \<open><[^>]+>\<close>.\<close>

definition any_tag :: re where
  "any_tag = Seq (Lit ''<'') (Seq (Plus not_gt) (Lit ''>''))"

text \<open>\<open>str.replace\<close> of every occurrence of a non-empty text, from left to right.\<close>

definition replace :: "string \<Rightarrow> string \<Rightarrow> string \<Rightarrow> string" where
  "replace old new s = re_sub (Lit old) new s"

text \<open>
  \<open>html.escape\<close>, with \<open>quote=True\<close>: the five characters become entities, the
  ampersand first.
\<close>

definition escape_char :: "char \<Rightarrow> string" where
  "escape_char c =
     (if c = CHR ''&'' then ''&amp;''
      else if c = CHR ''<'' then ''&lt;''
      else if c = CHR ''>'' then ''&gt;''
      else if c = CHR 0x22 then ''&quot;''
      else if c = CHR 0x27 then ''&#x27;''
      else [c])"

definition escape :: "string \<Rightarrow> string" where
  "escape s = concat (map escape_char s)"

text \<open>The text of lines, each ended by a line feed.\<close>

definition newline :: string where
  "newline = [CHR 0x0A]"

definition unlines :: "string list \<Rightarrow> string" where
  "unlines ls = concat (map (\<lambda>l. l @ newline) ls)"

section \<open>Text normaliser\<close>

text \<open>
  The patterns of \<open>_compute_word_count\<close> for a block element: \<open></p>\<close> and
  \<open><p[^>]*/?>\<close> and the like, under \<open>re.IGNORECASE\<close>; and the list of the elements.
\<close>

definition close_tag :: "string \<Rightarrow> re" where
  "close_tag n = Seq (Lit ''</'') (Seq (nocase n) (Lit ''>''))"

definition block_tag :: "string \<Rightarrow> re" where
  "block_tag n =
     Seq (Lit ''<'') (Seq (nocase n) (Seq (Star not_gt) (Seq (Opt (Lit ''/'')) (Lit ''>''))))"

definition block_elements :: "string list" where
  "block_elements = [''p'', ''div'', ''br'', ''li'', ''h1'', ''h2'', ''h3'', ''h4'', ''h5'', ''h6'']"

text \<open>
  \<open>string.punctuation\<close>: the 32 ASCII characters that are neither letters nor digits,
  from \<open>!\<close> to \<open>/\<close>, from \<open>:\<close> to \<open>@\<close>, from \<open>[\<close> to the backquote and from \<open>{\<close> to \<open>~\<close>.
\<close>

definition punctuation :: "char \<Rightarrow> bool" where
  "punctuation c =
     (let n = (of_char c :: nat)
      in (33 \<le> n \<and> n \<le> 47) \<or> (58 \<le> n \<and> n \<le> 64) \<or> (91 \<le> n \<and> n \<le> 96) \<or>
         (123 \<le> n \<and> n \<le> 126))"

text \<open>\<open>str.split()\<close>: the words between runs of white space.\<close>

function split_from :: "string \<Rightarrow> string \<Rightarrow> string list" where
  "split_from word [] = (if word = [] then [] else [word])"
| "split_from word (c # cs) =
     (if ws_bytes (c # cs) = 0 then split_from (word @ [c]) cs
      else (if word = [] then [] else [word]) @
           split_from [] (drop (ws_bytes (c # cs)) (c # cs)))"
  by pat_completeness auto
termination
  by (relation "measure (\<lambda>(word, s). length s)") auto

definition split :: "string \<Rightarrow> string list" where
  "split s = split_from [] s"

text \<open>
  \<open>_compute_word_count\<close> for one record: the pair of \<open>word_count\<close> and \<open>char_count\<close>
  that it assigns, from the content of the record. Nothing in its \<open>try\<close> raises on a text, so the \<open>except\<close> branch is
  never run.
\<close>

definition compute_word_count :: "env \<Rightarrow> string option \<Rightarrow> int \<times> int" where
  "compute_word_count env record_content =
     (case record_content of
        None \<Rightarrow> (0, 0)
      | Some c \<Rightarrow>
          if c = [] then (0, 0)
          else
            let content_with_spaces =
                  foldl (\<lambda>text element.
                           re_sub (block_tag element) '' '' (re_sub (close_tag element) '' '' text))
                    c block_elements;
                text_content = re_sub any_tag [] content_with_spaces;
                text_content = unescape env text_content;
                text_content = re_sub (Plus space) '' '' text_content;
                text_content = strip text_content
            in if text_content \<noteq> []
               then (int (length (split (filter (\<lambda>x. \<not> punctuation x) text_content))),
                     int (py_len text_content))
               else (0, 0))"

section \<open>Version store\<close>

text \<open>
  The \<open>vals\<close> of \<open>create\<close> and \<open>write\<close> on an entry: a field is \<open>None\<close> when the
  dictionary has no such key. The keys are the fields a client writes;
  \<open>current_version\<close> and \<open>version_ids\<close> are declared read-only and are not among them.
\<close>

record entry_vals =
  set_name :: "string option"
  set_content :: "string option option"
  set_notebook_id :: "nat option"
  set_tag_ids :: "nat list option"
  set_user_id :: "uid option"
  set_entry_date :: "date option"
  set_state :: "state option option"
  set_word_count :: "int option"
  set_char_count :: "int option"
  set_is_favorite :: "bool option"
  set_mood :: "mood option option"

definition no_vals :: entry_vals where
  "no_vals = \<lparr>set_name = None, set_content = None, set_notebook_id = None,
     set_tag_ids = None, set_user_id = None, set_entry_date = None, set_state = None,
     set_word_count = None, set_char_count = None, set_is_favorite = None,
     set_mood = None\<rparr>"

text \<open>
  The framework's \<open>create\<close> on \<open>journal.entry.version\<close>: the row gets the next
  identifier and the time of its creation, and the constraint
  \<open>unique_version_per_entry\<close> of \<open>_sql_constraints\<close> refuses a second row with the same
  entry and version number.
\<close>

definition version_create ::
  "env \<Rightarrow> nat \<Rightarrow> int \<Rightarrow> string option \<Rightarrow> int \<Rightarrow> int \<Rightarrow> uid \<Rightarrow> db \<Rightarrow> error + db" where
  "version_create env e n c w k u d =
     (if list_ex (\<lambda>v. entry_id v = e \<and> version_number v = n) (versions d)
      then Inl (IntegrityError ''Version number must be unique per entry.'')
      else Inr (d\<lparr>versions := versions d @
                  [\<lparr>vid = Suc (version_seq d), entry_id = e, created_by = u,
                    version_number = n, version_content = c, version_word_count = w,
                    version_char_count = k, create_date = now env\<rparr>],
                version_seq := Suc (version_seq d)\<rparr>))"

text \<open>
  \<open>_create_version\<close>, first the body of its loop for the record \<open>i\<close>, then the loop
  over the records of \<open>self\<close>. Reading a field of a record that does not exist raises
  \<open>MissingError\<close>. An error leaves the request and the framework rolls the transaction
  back, so an error carries no database.
\<close>

definition create_version_of :: "env \<Rightarrow> nat \<Rightarrow> db \<Rightarrow> error + db" where
  "create_version_of env i d =
     (case browse_entry d i of
        None \<Rightarrow> Inl MissingError
      | Some record \<Rightarrow>
          if truthy (content record) then
            (case version_create env i (current_version record) (content record)
                    (word_count record) (char_count record) (user env) d of
               Inl err \<Rightarrow> Inl err
             | Inr d' \<Rightarrow>
                 Inr (update_entry i (\<lambda>r. r\<lparr>current_version := current_version r + 1\<rparr>) d'))
          else Inr d)"

fun create_version :: "env \<Rightarrow> nat list \<Rightarrow> db \<Rightarrow> error + db" where
  "create_version env [] d = Inr d"
| "create_version env (i # self) d =
     (case create_version_of env i d of
        Inl err \<Rightarrow> Inl err
      | Inr d' \<Rightarrow> create_version env self d')"

text \<open>
  The constraints \<open>_check_entry_date\<close> and \<open>_check_name_length\<close>, over the records
  they are called on.
\<close>

definition check_entry_date :: "env \<Rightarrow> entry list \<Rightarrow> error option" where
  "check_entry_date env self =
     (if list_ex (\<lambda>e. date_less (on_date (now env)) (entry_date e)) self
      then Some (ValidationError ''Entry date cannot be in the future.'')
      else None)"

definition check_name_length :: "entry list \<Rightarrow> error option" where
  "check_name_length self =
     (if list_ex (\<lambda>e. py_len (strip (name e)) < 2) self
      then Some (ValidationError ''Title must be at least 2 characters long.'')
      else None)"

text \<open>
  The framework's \<open>write\<close> (\<open>super().write\<close>). It assigns the fields of \<open>vals\<close> to
  every record of \<open>self\<close> and stamps \<open>write_date\<close>; a stored computed field is recomputed when the field it
  depends on is written, unless \<open>vals\<close> gives a computed field itself: then the counts
  are the given ones. It then runs the constraints of the fields written.
\<close>

definition assign :: "env \<Rightarrow> entry_vals \<Rightarrow> entry \<Rightarrow> entry" where
  "assign env vals e =
     (let c = (case set_content vals of None \<Rightarrow> content e | Some x \<Rightarrow> x);
          given = (set_word_count vals \<noteq> None \<or> set_char_count vals \<noteq> None);
          recompute = (set_content vals \<noteq> None \<and> \<not> given)
      in e\<lparr>name := (case set_name vals of None \<Rightarrow> name e | Some x \<Rightarrow> x),
           content := c,
           notebook_id := (case set_notebook_id vals of None \<Rightarrow> notebook_id e | Some x \<Rightarrow> x),
           tag_ids := (case set_tag_ids vals of None \<Rightarrow> tag_ids e | Some x \<Rightarrow> x),
           user_id := (case set_user_id vals of None \<Rightarrow> user_id e | Some x \<Rightarrow> x),
           entry_date := (case set_entry_date vals of None \<Rightarrow> entry_date e | Some x \<Rightarrow> x),
           write_date := now env,
           state := (case set_state vals of None \<Rightarrow> state e | Some x \<Rightarrow> x),
           word_count := (case set_word_count vals of
                            None \<Rightarrow> if recompute then fst (compute_word_count env c) else word_count e
                          | Some x \<Rightarrow> x),
           char_count := (case set_char_count vals of
                            None \<Rightarrow> if recompute then snd (compute_word_count env c) else char_count e
                          | Some x \<Rightarrow> x),
           is_favorite := (case set_is_favorite vals of None \<Rightarrow> is_favorite e | Some x \<Rightarrow> x),
           mood := (case set_mood vals of None \<Rightarrow> mood e | Some x \<Rightarrow> x)\<rparr>)"

definition constraints :: "env \<Rightarrow> entry_vals \<Rightarrow> entry list \<Rightarrow> error option" where
  "constraints env vals recs =
     (case (if set_entry_date vals \<noteq> None then check_entry_date env recs else None) of
        Some err \<Rightarrow> Some err
      | None \<Rightarrow> if set_name vals \<noteq> None then check_name_length recs else None)"

definition orm_write :: "env \<Rightarrow> nat list \<Rightarrow> entry_vals \<Rightarrow> db \<Rightarrow> error + db" where
  "orm_write env self vals d =
     (if list_ex (\<lambda>i. browse_entry d i = None) self then Inl MissingError
      else
        let d' = fold (\<lambda>i. update_entry i (assign env vals)) self d
        in case constraints env vals (List.map_filter (browse_entry d') self) of
             Some err \<Rightarrow> Inl err
           | None \<Rightarrow> Inr d')"

text \<open>
  \<open>write\<close> of \<open>journal.entry\<close>: \<open>_create_version\<close> when \<open>vals\<close> has the key
  \<open>content\<close>, then the framework's write. The method returns \<open>True\<close>; the model
  returns the database it leaves.
\<close>

definition entry_write :: "env \<Rightarrow> nat list \<Rightarrow> entry_vals \<Rightarrow> db \<Rightarrow> error + db" where
  "entry_write env self vals d =
     (case (if set_content vals \<noteq> None then create_version env self d else Inr d) of
        Inl err \<Rightarrow> Inl err
      | Inr d' \<Rightarrow> orm_write env self vals d')"


text \<open>
  \<open>action_restore_version\<close>: \<open>ensure_one\<close> raises \<open>ValueError\<close> unless \<open>self\<close> is one
  record; the version is read by its identifier; when it belongs to the entry, the
  entry is snapshotted and then written with the content and counts of the version.
\<close>

definition action_restore_version :: "env \<Rightarrow> nat list \<Rightarrow> nat \<Rightarrow> db \<Rightarrow> error + db" where
  "action_restore_version env self version_id d =
     (case self of
        [i] \<Rightarrow>
          (case browse_version d version_id of
             None \<Rightarrow> Inl MissingError
           | Some v \<Rightarrow>
               if entry_id v = i then
                 (case create_version env self d of
                    Inl err \<Rightarrow> Inl err
                  | Inr d' \<Rightarrow>
                      entry_write env self
                        (no_vals\<lparr>set_content := Some (version_content v),
                                 set_word_count := Some (version_word_count v),
                                 set_char_count := Some (version_char_count v)\<rparr>) d')
               else Inr d)
      | _ \<Rightarrow> Inl ValueError)"

section \<open>Version store: runs, preconditions and sample data\<close>

text \<open>
  The versions of the entry \<open>i\<close> are numbered below its counter. This is what makes
  the next snapshot pass the constraint \<open>unique_version_per_entry\<close>.
\<close>

definition numbers_below :: "db \<Rightarrow> nat \<Rightarrow> bool" where
  "numbers_below d i =
     (case browse_entry d i of
        None \<Rightarrow> True
      | Some e \<Rightarrow> list_all (\<lambda>v. version_number v < current_version e) (version_ids d i))"



text \<open>A write that changes the value of the field \<open>content\<close> of the entry \<open>e\<close>.\<close>

definition changes_content :: "entry_vals \<Rightarrow> entry \<Rightarrow> bool" where
  "changes_content vals e =
     (case set_content vals of None \<Rightarrow> False | Some c \<Rightarrow> c \<noteq> content e)"


text \<open>
  Sample data: an environment (the sample texts hold no entity, so \<open>html.unescape\<close>
  leaves them as they are), an entry titled \<open>My day\<close> with the content
  \<open><p>Hello world</p>\<close> (2 words, 11 characters), an entry without content, and the
  database after the first entry was edited once.
\<close>

definition demo_now :: datetime where
  "demo_now = \<lparr>on_date = \<lparr>year = 2024, month = 5, day = 20\<rparr>,
     hour = 10, minute = 30, second = 0\<rparr>"

definition demo_env :: env where
  "demo_env = \<lparr>user = 7, now = demo_now, unescape = (\<lambda>s. s), pads_year = False\<rparr>"

definition empty_db :: db where
  "empty_db = \<lparr>entries = [], versions = [], notebooks = [], tags = [], entry_seq = 0,
     version_seq = 0\<rparr>"


definition demo_edit :: entry_vals where
  "demo_edit = no_vals\<lparr>set_content := Some (Some ''<p>Hello there world</p>'')\<rparr>"

definition demo_entry :: entry where
  "demo_entry = \<lparr>eid = 1, name = ''My day'', content = Some ''<p>Hello world</p>'',
     notebook_id = 1, tag_ids = [], user_id = 7,
     entry_date = \<lparr>year = 2024, month = 5, day = 20\<rparr>, write_date = demo_now,
     state = Some draft,
     word_count = 2, char_count = 11, is_favorite = False, mood = None,
     current_version = 1\<rparr>"

definition demo_db :: db where
  "demo_db = empty_db\<lparr>entries := [demo_entry], entry_seq := 1\<rparr>"

definition demo_same :: entry_vals where
  "demo_same = no_vals\<lparr>set_content := Some (Some ''<p>Hello world</p>'')\<rparr>"

definition blank_entry :: entry where
  "blank_entry = demo_entry\<lparr>eid := 2, name := ''Later'', content := None,
     word_count := 0, char_count := 0\<rparr>"

definition blank_db :: db where
  "blank_db = empty_db\<lparr>entries := [demo_entry, blank_entry], entry_seq := 2\<rparr>"

definition edited_entry :: entry where
  "edited_entry = demo_entry\<lparr>content := Some ''<p>Hello there world</p>'', word_count := 3,
     char_count := 17, current_version := 2\<rparr>"

definition first_version :: version where
  "first_version = \<lparr>vid = 1, entry_id = 1, created_by = 7, version_number = 1,
     version_content = Some ''<p>Hello world</p>'', version_word_count = 2,
     version_char_count = 11, create_date = demo_now\<rparr>"

definition edited_db :: db where
  "edited_db = empty_db\<lparr>entries := [edited_entry], versions := [first_version],
     entry_seq := 1, version_seq := 1\<rparr>"

text \<open>
  The values of a write pass the two constraints: a date that is given is not after
  today, and a title that is given keeps at least 2 characters when stripped.
\<close>

definition acceptable :: "env \<Rightarrow> entry_vals \<Rightarrow> bool" where
  "acceptable env vals =
     ((case set_entry_date vals of
         None \<Rightarrow> True
       | Some dt \<Rightarrow> \<not> date_less (on_date (now env)) dt) \<and>
      (case set_name vals of None \<Rightarrow> True | Some n \<Rightarrow> 2 \<le> py_len (strip n)))"

section \<open>Notebooks\<close>

definition browse_notebook :: "db \<Rightarrow> nat \<Rightarrow> notebook option" where
  "browse_notebook d n = find (\<lambda>b. nid b = n) (notebooks d)"

text \<open>The field \<open>entry_ids\<close> of a notebook, and of a set of notebooks.\<close>

definition notebook_entry_ids :: "db \<Rightarrow> nat \<Rightarrow> entry list" where
  "notebook_entry_ids d n = filter (\<lambda>e. notebook_id e = n) (entries d)"

definition notebooks_entry_ids :: "db \<Rightarrow> nat list \<Rightarrow> entry list" where
  "notebooks_entry_ids d self = filter (\<lambda>e. notebook_id e \<in> set self) (entries d)"

text \<open>
  The framework's \<open>unlink\<close>. Deleting entries deletes their versions with them
  (\<open>ondelete='cascade'\<close> on \<open>entry_id\<close>).
\<close>

definition entry_unlink :: "nat list \<Rightarrow> db \<Rightarrow> db" where
  "entry_unlink ids d =
     d\<lparr>entries := filter (\<lambda>e. eid e \<notin> set ids) (entries d),
       versions := filter (\<lambda>v. entry_id v \<notin> set ids) (versions d)\<rparr>"

definition orm_notebook_unlink :: "nat list \<Rightarrow> db \<Rightarrow> db" where
  "orm_notebook_unlink self d =
     d\<lparr>notebooks := filter (\<lambda>b. nid b \<notin> set self) (notebooks d)\<rparr>"

text \<open>
  \<open>unlink\<close> of \<open>journal.notebook\<close>: the loop that refuses a notebook with entries, then
  the framework's \<open>unlink\<close>.
\<close>

fun has_entries :: "db \<Rightarrow> nat list \<Rightarrow> error option" where
  "has_entries d [] = None"
| "has_entries d (n # self) =
     (case browse_notebook d n of
        None \<Rightarrow> Some MissingError
      | Some b \<Rightarrow>
          if notebook_entry_ids d n \<noteq> [] then
            Some (UserError
              ''Cannot delete notebook that still has entries. Use the 'Delete Notebook' button instead.'')
          else has_entries d self)"

definition notebook_unlink :: "nat list \<Rightarrow> db \<Rightarrow> error + db" where
  "notebook_unlink self d =
     (case has_entries d self of
        Some err \<Rightarrow> Inl err
      | None \<Rightarrow> Inr (orm_notebook_unlink self d))"

text \<open>
  \<open>action_delete\<close> of \<open>journal.notebook\<close>. The action it returns is read from the data
  of the module before anything is deleted and is not modelled; the model returns the
  database.
\<close>

definition notebook_action_delete :: "nat list \<Rightarrow> db \<Rightarrow> error + db" where
  "notebook_action_delete self d =
     (let d' = (if notebooks_entry_ids d self \<noteq> []
                then entry_unlink (map eid (notebooks_entry_ids d self)) d
                else d)
      in notebook_unlink self d')"

text \<open>
  The database after a request that started on \<open>d\<close>: an error rolls the transaction
  back.
\<close>

definition after_request :: "db \<Rightarrow> error + db \<Rightarrow> db" where
  "after_request d r = (case r of Inl err \<Rightarrow> d | Inr d' \<Rightarrow> d')"

text \<open>Sample data: the notebook of the sample entry.\<close>

definition demo_notebook :: notebook where
  "demo_notebook = \<lparr>nid = 1, notebook_name = ''Diary'', notebook_user_id = 7\<rparr>"

definition notebook_db :: db where
  "notebook_db = demo_db\<lparr>notebooks := [demo_notebook]\<rparr>"

section \<open>Calendar\<close>

text \<open>
  \<open>date - timedelta(days=n)\<close> and \<open>date.replace\<close>, on the proleptic Gregorian calendar
  of Python's \<open>date\<close>.
\<close>

definition is_leap :: "int \<Rightarrow> bool" where
  "is_leap y = (y mod 4 = 0 \<and> (y mod 100 \<noteq> 0 \<or> y mod 400 = 0))"

definition days_in_month :: "int \<Rightarrow> int \<Rightarrow> int" where
  "days_in_month y m =
     (if m = 2 then (if is_leap y then 29 else 28)
      else if m = 4 \<or> m = 6 \<or> m = 9 \<or> m = 11 then 30 else 31)"

definition prev_day :: "date \<Rightarrow> date" where
  "prev_day dt =
     (if 1 < day dt then dt\<lparr>day := day dt - 1\<rparr>
      else if 1 < month dt
        then dt\<lparr>month := month dt - 1, day := days_in_month (year dt) (month dt - 1)\<rparr>
      else \<lparr>year = year dt - 1, month = 12, day = 31\<rparr>)"

fun minus_days :: "date \<Rightarrow> nat \<Rightarrow> date" where
  "minus_days dt 0 = dt"
| "minus_days dt (Suc n) = minus_days (prev_day dt) n"

section \<open>Mood aggregator\<close>

text \<open>
  \<open>search\<close> returns the entries that match the domain in the order of the model,
  \<open>_order = 'entry_date desc, write_date desc'\<close>; entries that agree on both keep the
  order of the table.
\<close>

definition comes_first :: "entry \<Rightarrow> entry \<Rightarrow> bool" where
  "comes_first a b =
     (date_less (entry_date b) (entry_date a) \<or>
      (entry_date a = entry_date b \<and> datetime_le (write_date b) (write_date a)))"

fun insert_entry :: "entry \<Rightarrow> entry list \<Rightarrow> entry list" where
  "insert_entry x [] = [x]"
| "insert_entry x (y # ys) = (if comes_first x y then x # y # ys else y # insert_entry x ys)"

definition search :: "(entry \<Rightarrow> bool) \<Rightarrow> db \<Rightarrow> entry list" where
  "search domain d = foldr insert_entry (filter domain (entries d)) []"

text \<open>
  A dictionary that is read in the order of its keys is a list of pairs in the order of
  insertion. \<open>get_count\<close> is \<open>counts.get(k, 0)\<close>, \<open>bump\<close> is
  \<open>counts[k] = counts.get(k, 0) + 1\<close>: a key that is present keeps its place, a new key
  goes to the end.
\<close>

fun get_count :: "('k \<times> int) list \<Rightarrow> 'k \<Rightarrow> int" where
  "get_count [] k = 0"
| "get_count ((k', c) # kvs) k = (if k' = k then c else get_count kvs k)"

fun bump :: "('k \<times> int) list \<Rightarrow> 'k \<Rightarrow> ('k \<times> int) list" where
  "bump [] k = [(k, 1)]"
| "bump ((k', c) # kvs) k = (if k' = k then (k', c + 1) # kvs else (k', c) # bump kvs k)"

text \<open>The loop \<open>for entry in entries: counts[entry.mood] = counts.get(entry.mood, 0) + 1\<close>.\<close>

fun count_moods :: "(mood \<times> int) list \<Rightarrow> entry list \<Rightarrow> (mood \<times> int) list" where
  "count_moods acc [] = acc"
| "count_moods acc (e # es) =
     (case mood e of
        None \<Rightarrow> count_moods acc es
      | Some m \<Rightarrow> count_moods (bump acc m) es)"

text \<open>
  Python's \<open>max(xs, key=f)\<close> on a non-empty sequence: the first element whose key no
  other element exceeds.
\<close>

fun max_by :: "('a \<Rightarrow> int) \<Rightarrow> 'a \<Rightarrow> 'a list \<Rightarrow> 'a" where
  "max_by f best [] = best"
| "max_by f best (x # xs) = max_by f (if f best < f x then x else best) xs"

text \<open>
  A Python \<open>float\<close> is a double: the model holds the rational number it denotes, and
  \<open>fl x\<close> is the double nearest to \<open>x\<close>, the one with the even significand of 53 bits
  when two are as near. \<open>exponent x\<close> is the integer \<open>e\<close> with \<open>2^e \<le> |x| < 2^(e+1)\<close>. The
  range of the exponent of a double is not modelled: the numbers divided here are counts
  of records and their differences, below \<open>2^63\<close>, and no quotient, product or rounded
  value of them leaves the range of the normal doubles.
\<close>

definition round_half_even :: "rat \<Rightarrow> int" where
  "round_half_even y =
     (let f = \<lfloor>y\<rfloor>; r = y - of_int f
      in if r < 1 / 2 then f
         else if 1 / 2 < r then f + 1
         else if even f then f else f + 1)"

definition exponent :: "rat \<Rightarrow> int" where
  "exponent x =
     (case quotient_of \<bar>x\<bar> of
        (p, q) \<Rightarrow> let k = bitlen p - bitlen q in if 2 powi k \<le> \<bar>x\<bar> then k else k - 1)"

definition fl :: "rat \<Rightarrow> rat" where
  "fl x =
     (if x = 0 then 0
      else let u = 2 powi (exponent x - 52) in of_int (round_half_even (x / u)) * u)"

text \<open>
  The operations of the source on numbers: \<open>a / b\<close> of two integers, which is the
  double nearest to the quotient; \<open>x * 100\<close> of a float; and \<open>round(x, 2)\<close> of a float,
  which is the double nearest to the decimal with two places nearest to \<open>x\<close>, the even
  one when \<open>x\<close> is halfway.
\<close>

definition true_divide :: "int \<Rightarrow> int \<Rightarrow> rat" where
  "true_divide a b = fl (of_int a / of_int b)"

definition times_100 :: "rat \<Rightarrow> rat" where
  "times_100 x = fl (x * 100)"

definition round_float :: "rat \<Rightarrow> rat" where
  "round_float x = fl (of_int (round_half_even (x * 100)) / 100)"

text \<open>
  The value of the variable \<open>trend\<close> is an \<open>int\<close> or a \<open>float\<close>; \<open>round(n, 2)\<close> of an
  \<open>int\<close> is the \<open>int\<close> itself.
\<close>

datatype number = PyInt int | PyFloat rat

fun round_number :: "number \<Rightarrow> number" where
  "round_number (PyInt n) = PyInt n"
| "round_number (PyFloat x) = PyFloat (round_float x)"

fun positive :: "number \<Rightarrow> bool" where
  "positive (PyInt n) = (0 < n)"
| "positive (PyFloat x) = (0 < x)"

fun negative :: "number \<Rightarrow> bool" where
  "negative (PyInt n) = (n < 0)"
| "negative (PyFloat x) = (x < 0)"

datatype direction = up | down | stable

record trend =
  recent_count :: int
  previous_count :: int
  trend_percentage :: number
  trend_direction :: direction

text \<open>
  The body of the loop of \<open>_calculate_mood_trends\<close>, for one mood: first the value of
  the variable \<open>trend\<close>, then the dictionary of the mood.
\<close>

definition trend_value :: "int \<Rightarrow> int \<Rightarrow> number" where
  "trend_value recent previous =
     (if previous = 0 then PyInt (if 0 < recent then 100 else 0)
      else PyFloat (times_100 (true_divide (recent - previous) previous)))"

definition mood_trend :: "int \<Rightarrow> int \<Rightarrow> trend" where
  "mood_trend recent previous =
     \<lparr>recent_count = recent, previous_count = previous,
      trend_percentage = round_number (trend_value recent previous),
      trend_direction = (if positive (trend_value recent previous) then up
                         else if negative (trend_value recent previous) then down
                         else stable)\<rparr>"

text \<open>
  \<open>_calculate_mood_trends\<close>. The source walks the set of the moods of both windows,
  whose order is not specified, and fills a dictionary: the model is the map.
\<close>

definition calculate_mood_trends :: "env \<Rightarrow> uid \<Rightarrow> db \<Rightarrow> mood \<Rightarrow> trend option" where
  "calculate_mood_trends env u d =
     (let end_date = on_date (now env);
          recent_start = minus_days end_date 7;
          previous_start = minus_days recent_start 7;
          recent_entries = search (\<lambda>e. user_id e = u \<and> mood e \<noteq> None \<and>
                             date_le recent_start (entry_date e) \<and>
                             date_le (entry_date e) end_date) d;
          previous_entries = search (\<lambda>e. user_id e = u \<and> mood e \<noteq> None \<and>
                               date_le previous_start (entry_date e) \<and>
                               date_less (entry_date e) recent_start) d;
          recent_counts = count_moods [] recent_entries;
          previous_counts = count_moods [] previous_entries;
          all_moods = set (map fst recent_counts @ map fst previous_counts)
      in (\<lambda>m. if m \<in> all_moods
               then Some (mood_trend (get_count recent_counts m) (get_count previous_counts m))
               else None))"

text \<open>
  The name of the notebook of an entry. The field is required and the notebook is
  deleted only with its entries, so the row exists; the empty text stands for a row
  that does not.
\<close>

definition notebook_name_of :: "db \<Rightarrow> entry \<Rightarrow> string" where
  "notebook_name_of d e =
     (case find (\<lambda>b. nid b = notebook_id e) (notebooks d) of
        None \<Rightarrow> []
      | Some b \<Rightarrow> notebook_name b)"

text \<open>The loop that fills \<open>notebook_breakdown\<close>.\<close>

fun bump_in :: "(string \<times> (mood \<times> int) list) list \<Rightarrow> string \<Rightarrow> mood \<Rightarrow>
    (string \<times> (mood \<times> int) list) list" where
  "bump_in [] n m = [(n, bump [] m)]"
| "bump_in ((n', kvs) # rest) n m =
     (if n' = n then (n', bump kvs m) # rest else (n', kvs) # bump_in rest n m)"

fun breakdown :: "db \<Rightarrow> (string \<times> (mood \<times> int) list) list \<Rightarrow> entry list \<Rightarrow>
    (string \<times> (mood \<times> int) list) list" where
  "breakdown d acc [] = acc"
| "breakdown d acc (e # es) =
     (case mood e of
        None \<Rightarrow> breakdown d acc es
      | Some m \<Rightarrow> breakdown d (bump_in acc (notebook_name_of d e) m) es)"

text \<open>
  The dictionary \<open>get_mood_statistics\<close> returns. The key \<open>period\<close> is absent from the
  dictionary of the empty case.
\<close>

record mood_statistics =
  total_entries :: int
  mood_counts :: "(mood \<times> int) list"
  mood_percentages :: "(mood \<times> rat) list"
  most_common_mood :: "mood option"
  mood_trends :: "mood \<Rightarrow> trend option"
  notebook_breakdown :: "(string \<times> (mood \<times> int) list) list"
  period :: "string option"

text \<open>The start of the period, when the period has one.\<close>

definition period_start :: "env \<Rightarrow> string \<Rightarrow> date option" where
  "period_start env p =
     (if p = ''week'' then Some (minus_days (on_date (now env)) 7)
      else if p = ''month'' then Some ((on_date (now env))\<lparr>day := 1\<rparr>)
      else if p = ''year'' then Some ((on_date (now env))\<lparr>month := 1, day := 1\<rparr>)
      else None)"

text \<open>
  \<open>user_id or self.env.user.id\<close>: the acting user when the argument is \<open>None\<close> or 0.
\<close>

definition acting_user :: "env \<Rightarrow> uid option \<Rightarrow> uid" where
  "acting_user env user_arg =
     (case user_arg of None \<Rightarrow> user env | Some x \<Rightarrow> if x = 0 then user env else x)"

text \<open>
  The entries \<open>get_mood_statistics\<close> aggregates: those of the user in the period that
  have a mood.
\<close>

definition mood_entries :: "env \<Rightarrow> uid option \<Rightarrow> string \<Rightarrow> db \<Rightarrow> entry list" where
  "mood_entries env user_arg p d =
     (let entries = search (\<lambda>e. user_id e = acting_user env user_arg \<and>
                      (case period_start env p of
                         None \<Rightarrow> True
                       | Some start \<Rightarrow> date_le start (entry_date e))) d
      in filter (\<lambda>e. mood e \<noteq> None) entries)"

definition get_mood_statistics :: "env \<Rightarrow> uid option \<Rightarrow> string \<Rightarrow> db \<Rightarrow> mood_statistics" where
  "get_mood_statistics env user_arg p d =
     (let mood_entries = mood_entries env user_arg p d
      in if mood_entries = [] then
           \<lparr>total_entries = 0, mood_counts = [], mood_percentages = [],
            most_common_mood = None, mood_trends = Map.empty, notebook_breakdown = [],
            period = None\<rparr>
         else
           let mood_counts = count_moods [] mood_entries;
               total_entries = int (length mood_entries);
               mood_percentages =
                 map (\<lambda>(m, c). (m, round_float (times_100 (true_divide c total_entries))))
                   mood_counts;
               most_common_mood =
                 (case map fst mood_counts of
                    [] \<Rightarrow> None
                  | k # ks \<Rightarrow> Some (max_by (get_count mood_counts) k ks))
           in \<lparr>total_entries = total_entries, mood_counts = mood_counts,
               mood_percentages = mood_percentages, most_common_mood = most_common_mood,
               mood_trends = calculate_mood_trends env (acting_user env user_arg) d,
               notebook_breakdown = breakdown d [] mood_entries,
               period = Some p\<rparr>)"

text \<open>The moods of a list of entries, in its order.\<close>

definition moods_of :: "entry list \<Rightarrow> mood list" where
  "moods_of es = List.map_filter mood es"

text \<open>
  Sample data: the user of the sample entry wrote three more entries, a sad one
  yesterday, a happy one the day before, and a tired one ten days ago.
\<close>

definition mood_entry :: "nat \<Rightarrow> int \<Rightarrow> mood \<Rightarrow> entry" where
  "mood_entry i dy m = demo_entry\<lparr>eid := i, entry_date := \<lparr>year = 2024, month = 5, day = dy\<rparr>,
     mood := Some m\<rparr>"

definition mood_db :: db where
  "mood_db = notebook_db\<lparr>
     entries := [demo_entry, mood_entry 2 18 happy, mood_entry 3 19 sad, mood_entry 4 10 tired],
     entry_seq := 4\<rparr>"

text \<open>
  Sample data: a user with 20002 happy entries today and 20001 happy entries ten days
  ago.
\<close>

definition busy_db :: db where
  "busy_db = notebook_db\<lparr>
     entries := map (\<lambda>i. mood_entry i 20 happy) [1..<20003] @
                map (\<lambda>i. mood_entry i 10 happy) [20003..<40004],
     entry_seq := 40003\<rparr>"

section \<open>Export formatter\<close>

text \<open>\<open>sep.join(xs)\<close>.\<close>

fun join :: "string \<Rightarrow> string list \<Rightarrow> string" where
  "join sep [] = []"
| "join sep [x] = x"
| "join sep (x # y # ys) = x @ sep @ join sep (y # ys)"

text \<open>\<open>self.tag_ids.mapped('name')\<close>.\<close>

definition tag_names :: "db \<Rightarrow> nat list \<Rightarrow> string list" where
  "tag_names d ids =
     List.map_filter (\<lambda>i. map_option tag_name (find (\<lambda>t. tid t = i) (tags d))) ids"

text \<open>
  The selection of the field \<open>mood\<close>, its labels starting with an emoji, and
  \<open>dict(self._fields['mood'].selection).get(self.mood, '')\<close>.
\<close>

definition mood_selection :: "(mood \<times> string) list" where
  "mood_selection =
     [(happy, [CHR 0xF0, CHR 0x9F, CHR 0x98, CHR 0x8A] @ '' Happy''),
      (sad, [CHR 0xF0, CHR 0x9F, CHR 0x98, CHR 0xA2] @ '' Sad''),
      (excited, [CHR 0xF0, CHR 0x9F, CHR 0x98, CHR 0x83] @ '' Excited''),
      (angry, [CHR 0xF0, CHR 0x9F, CHR 0x98, CHR 0xA0] @ '' Angry''),
      (peaceful, [CHR 0xF0, CHR 0x9F, CHR 0x98, CHR 0x8C] @ '' Peaceful''),
      (anxious, [CHR 0xF0, CHR 0x9F, CHR 0x98, CHR 0xB0] @ '' Anxious''),
      (grateful, [CHR 0xF0, CHR 0x9F, CHR 0x99, CHR 0x8F] @ '' Grateful''),
      (tired, [CHR 0xF0, CHR 0x9F, CHR 0x98, CHR 0xB4] @ '' Tired'')]"

definition mood_display :: "mood \<Rightarrow> string" where
  "mood_display m = (case map_of mood_selection m of None \<Rightarrow> [] | Some l \<Rightarrow> l)"

text \<open>The star U+2B50 of a favourite.\<close>

definition star :: string where
  "star = [CHR 0xE2, CHR 0xAD, CHR 0x90]"

text \<open>
  \<open>self.state.title()\<close> for a state that is set. The field is not required: when it
  is \<open>False\<close> the call raises the \<open>AttributeError\<close> with the text \<open>no_title\<close>.
\<close>

definition state_title :: "state \<Rightarrow> string" where
  "state_title s =
     (case s of draft \<Rightarrow> ''Draft'' | published \<Rightarrow> ''Published'' | archived \<Rightarrow> ''Archived'')"

definition no_title :: string where
  "no_title =
     [CHR 0x27] @ ''bool'' @ [CHR 0x27] @ '' object has no attribute '' @ [CHR 0x27] @
     ''title'' @ [CHR 0x27]"

text \<open>
  The patterns of \<open>_get_clean_content_text\<close>: \<open><br\s*/?>\<close>, \<open><p[^>]*>\<close> and the like,
  \<open></p>\<close> and the like (\<open>close_tag\<close> of the text normaliser), \<open><h[1-6][^>]*>\<close>,
  \<open></h[1-6]>\<close> and \<open>\n\s*\n\<close>, the tags under \<open>re.IGNORECASE\<close>.
\<close>

definition br_tag :: re where
  "br_tag = Seq (Lit ''<'') (Seq (nocase ''br'') (Seq (Star space) (Seq (Opt (Lit ''/'')) (Lit ''>''))))"

definition open_tag :: "string \<Rightarrow> re" where
  "open_tag n = Seq (Lit ''<'') (Seq (nocase n) (Seq (Star not_gt) (Lit ''>'')))"

definition one_to_six :: re where
  "one_to_six = Any (\<lambda>c. c \<in> set ''123456'')"

definition open_heading :: re where
  "open_heading =
     Seq (Lit ''<'') (Seq (nocase ''h'') (Seq one_to_six (Seq (Star not_gt) (Lit ''>''))))"

definition close_heading :: re where
  "close_heading = Seq (Lit ''</'') (Seq (nocase ''h'') (Seq one_to_six (Lit ''>'')))"

definition blank_lines :: re where
  "blank_lines = Seq (Lit newline) (Seq (Star space) (Lit newline))"

text \<open>
  \<open>_get_clean_content_text\<close>. The library function \<open>html.unescape\<close> is a parameter, a
  field of the environment.
\<close>

definition get_clean_content_text :: "env \<Rightarrow> entry \<Rightarrow> string" where
  "get_clean_content_text env self =
     (if \<not> truthy (content self) then []
      else
        let text_content = re_sub br_tag newline (case content self of None \<Rightarrow> [] | Some c \<Rightarrow> c);
            text_content = re_sub (open_tag ''p'') newline text_content;
            text_content = re_sub (close_tag ''p'') (newline @ newline) text_content;
            text_content = re_sub open_heading (newline @ ''# '') text_content;
            text_content = re_sub close_heading (newline @ newline) text_content;
            text_content = re_sub (open_tag ''strong'') ''**'' text_content;
            text_content = re_sub (close_tag ''strong'') ''**'' text_content;
            text_content = re_sub (open_tag ''em'') ''*'' text_content;
            text_content = re_sub (close_tag ''em'') ''*'' text_content;
            text_content = re_sub any_tag [] text_content;
            text_content = unescape env text_content;
            text_content = re_sub blank_lines (newline @ newline) text_content
        in strip text_content)"

text \<open>
  \<open>_generate_markdown_content\<close>, for the one record of \<open>self\<close>: first the text it
  builds when the state is the key \<open>s\<close>, then the function, which raises at the line of
  the status when the state is \<open>False\<close>.
\<close>

definition markdown_text :: "env \<Rightarrow> db \<Rightarrow> entry \<Rightarrow> state \<Rightarrow> string" where
  "markdown_text env d self s =
     unlines [''# '' @ name self, []] @
     unlines [''## Metadata'', []] @
     unlines [''- **Date:** '' @ ymd env (entry_date self)] @
     unlines [''- **Notebook:** '' @ notebook_name_of d self] @
     (if tag_ids self \<noteq> []
      then unlines [''- **Tags:** '' @ join '', '' (tag_names d (tag_ids self))] else []) @
     (case mood self of
        None \<Rightarrow> []
      | Some m \<Rightarrow> unlines [''- **Mood:** '' @ mood_display m]) @
     unlines [''- **Status:** '' @ state_title s] @
     (if is_favorite self then unlines [''- **Favorite:** '' @ star] else []) @
     unlines [''- **Words:** '' @ str_int (word_count self)] @
     unlines [''- **Characters:** '' @ str_int (char_count self)] @
     unlines [''- **Version:** '' @ str_int (current_version self - 1)] @
     unlines [[], ''## Content'', []] @
     get_clean_content_text env self @
     unlines [[], [], ''---''] @ ''*Exported from Journal on '' @ ymd_hm env (now env) @ ''*''"

definition generate_markdown_content :: "env \<Rightarrow> db \<Rightarrow> entry \<Rightarrow> error + string" where
  "generate_markdown_content env d self =
     (case state self of
        None \<Rightarrow> Inl (AttributeError no_title)
      | Some s \<Rightarrow> Inr (markdown_text env d self s))"

text \<open>\<open>c or alt\<close>, and \<open>c if c else alt\<close>, for a content \<open>c\<close>.\<close>

definition content_or :: "string option \<Rightarrow> string \<Rightarrow> string" where
  "content_or c alt = (case c of None \<Rightarrow> alt | Some x \<Rightarrow> if x = [] then alt else x)"

text \<open>
  \<open>_generate_pdf_html_content\<close>: the four texts it joins, the last one for the state
  \<open>s\<close>, then the function, which raises in the last text when the state is \<open>False\<close>.
\<close>

definition pdf_head :: "env \<Rightarrow> db \<Rightarrow> entry \<Rightarrow> string" where
  \<open>pdf_head env d self =
     unlines
     [''<!DOCTYPE html>'',
      ''<html>'',
      ''<head>'',
      ''    <meta charset="UTF-8">'',
      ''    <title>'' @ escape (name self) @ ''</title>'',
      ''    <style>'',
      ''        @page {'',
      ''            margin: 2cm;'',
      ''            size: A4;'',
      ''        }'',
      ''        body {'',
      ''            font-family: "DejaVu Sans", "Arial", sans-serif;'',
      ''            font-size: 12px;'',
      ''            line-height: 1.4;'',
      ''            color: #000000;'',
      ''            margin: 0;'',
      ''            padding: 0;'',
      ''        }'',
      ''        .header {'',
      ''            border-bottom: 3px solid #333333;'',
      ''            padding-bottom: 15px;'',
      ''            margin-bottom: 25px;'',
      ''        }'',
      ''        .title {'',
      ''            font-size: 20px;'',
      ''            font-weight: bold;'',
      ''            color: #000000;'',
      ''            text-align: center;'',
      ''            margin: 0;'',
      ''        }'',
      ''        .metadata {'',
      ''            background: #f8f9fa;'',
      ''            border: 1px solid #dee2e6;'',
      ''            padding: 15px;'',
      ''            margin: 20px 0;'',
      ''            border-radius: 4px;'',
      ''        }'',
      ''        .metadata-row {'',
      ''            margin: 6px 0;'',
      ''            display: flex;'',
      ''        }'',
      ''        .metadata-label {'',
      ''            font-weight: bold;'',
      ''            min-width: 100px;'',
      ''            color: #495057;'',
      ''        }'',
      ''        .metadata-value {'',
      ''            flex: 1;'',
      ''        }'',
      ''        .content {'',
      ''            margin-top: 25px;'',
      ''        }'',
      ''        .content p {'',
      ''            margin-bottom: 12px;'',
      ''        }'',
      ''        .content h1, .content h2, .content h3 {'',
      ''            margin-top: 20px;'',
      ''            margin-bottom: 10px;'',
      ''            color: #000000;'',
      ''        }'',
      ''        .footer {'',
      ''            margin-top: 40px;'',
      ''            padding-top: 15px;'',
      ''            border-top: 1px solid #cccccc;'',
      ''            color: #666666;'',
      ''            font-size: 10px;'',
      ''            text-align: center;'',
      ''        }'',
      ''        .no-content {'',
      ''            font-style: italic;'',
      ''            color: #6c757d;'',
      ''            text-align: center;'',
      ''            margin: 40px 0;'',
      ''        }'',
      ''    </style>'',
      ''</head>'',
      ''<body>'',
      ''    <div class="header">'',
      ''        <h1 class="title">'' @ escape (name self) @ ''</h1>'',
      ''    </div>'',
      [],
      ''    <div class="metadata">'',
      ''        <div class="metadata-row">'',
      ''            <span class="metadata-label">Date:</span>'',
      ''            <span class="metadata-value">'' @ long_date env (entry_date self) @ ''</span>'',
      ''        </div>'',
      ''        <div class="metadata-row">'',
      ''            <span class="metadata-label">Notebook:</span>'',
      ''            <span class="metadata-value">'' @ escape (notebook_name_of d self) @ ''</span>'',
      ''        </div>'']\<close>

definition pdf_tags :: "db \<Rightarrow> entry \<Rightarrow> string" where
  \<open>pdf_tags d self =
     unlines
     [''        <div class="metadata-row">'',
      ''            <span class="metadata-label">Tags:</span>'',
      ''            <span class="metadata-value">'' @ escape (join '', '' (tag_names d (tag_ids self))) @ ''</span>'',
      ''        </div>'']\<close>

definition pdf_mood :: "mood \<Rightarrow> string" where
  \<open>pdf_mood m =
     unlines
     [''        <div class="metadata-row">'',
      ''            <span class="metadata-label">Mood:</span>'',
      ''            <span class="metadata-value">'' @ escape (mood_display m) @ ''</span>'',
      ''        </div>'']\<close>

definition pdf_tail :: "env \<Rightarrow> entry \<Rightarrow> state \<Rightarrow> string" where
  \<open>pdf_tail env self s =
     unlines
     [''        <div class="metadata-row">'',
      ''            <span class="metadata-label">Status:</span>'',
      ''            <span class="metadata-value">'' @ state_title s @ ''</span>'',
      ''        </div>'',
      ''        <div class="metadata-row">'',
      ''            <span class="metadata-label">Favorite:</span>'',
      ''            <span class="metadata-value">'' @ (if is_favorite self then star @ '' Yes'' else ''No'') @ ''</span>'',
      ''        </div>'',
      ''        <div class="metadata-row">'',
      ''            <span class="metadata-label">Words:</span>'',
      ''            <span class="metadata-value">'' @ str_int (word_count self) @ ''</span>'',
      ''        </div>'',
      ''        <div class="metadata-row">'',
      ''            <span class="metadata-label">Characters:</span>'',
      ''            <span class="metadata-value">'' @ str_int (char_count self) @ ''</span>'',
      ''        </div>'',
      ''        <div class="metadata-row">'',
      ''            <span class="metadata-label">Version:</span>'',
      ''            <span class="metadata-value">'' @ str_int (current_version self - 1) @ ''</span>'',
      ''        </div>'',
      ''    </div>'',
      [],
      ''    <div class="content">'',
      ''        '' @ content_or (content self) ''<p class="no-content">No content available</p>'',
      ''    </div>'',
      [],
      ''    <div class="footer">'',
      ''        Exported from Journal on '' @ long_date_hm env (now env),
      ''    </div>'',
      ''</body>'']
     @ ''</html>''\<close>

definition pdf_text :: "env \<Rightarrow> db \<Rightarrow> entry \<Rightarrow> state \<Rightarrow> string" where
  "pdf_text env d self s =
     pdf_head env d self @
     (if tag_ids self \<noteq> [] then pdf_tags d self else []) @
     (case mood self of None \<Rightarrow> [] | Some m \<Rightarrow> pdf_mood m) @
     pdf_tail env self s"

definition generate_pdf_html_content :: "env \<Rightarrow> db \<Rightarrow> entry \<Rightarrow> error + string" where
  "generate_pdf_html_content env d self =
     (case state self of
        None \<Rightarrow> Inl (AttributeError no_title)
      | Some s \<Rightarrow> Inr (pdf_text env d self s))"

section \<open>The library difflib\<close>

text \<open>
  \<open>difflib.unified_diff\<close> of the Python library, as the source calls it: on two lists
  of lines, with \<open>SequenceMatcher(None, a, b)\<close>, so without a junk predicate and with
  \<open>autojunk\<close>. An element of \<open>b\<close> is popular when \<open>b\<close> has 200 elements or more and the
  element more than one hundredth of them plus one; \<open>b2j\<close> maps an element that is not
  popular to the places where \<open>b\<close> has it, in increasing order.
\<close>

definition popular :: "'a list \<Rightarrow> 'a \<Rightarrow> bool" where
  "popular b x = (200 \<le> length b \<and> length b div 100 + 1 < count_list b x)"

definition b2j :: "'a list \<Rightarrow> 'a \<Rightarrow> nat list" where
  "b2j b x = (if popular b x then [] else filter (\<lambda>j. b ! j = x) [0..<length b])"

type_synonym match = "nat \<times> nat \<times> nat"

text \<open>
  The first loop of \<open>find_longest_match\<close>. \<open>row\<close> is its inner loop, over the places
  \<open>j\<close> of \<open>a[i]\<close> in \<open>b\<close>: \<open>j2len\<close> holds, for the row before, the length of the match
  that ends at each place, 0 where there is none, and \<open>newj2len\<close> the same for this row.
  \<open>rows\<close> is the outer loop.
\<close>

fun row :: "nat \<Rightarrow> nat \<Rightarrow> nat \<Rightarrow> (nat \<Rightarrow> nat) \<Rightarrow> nat list \<Rightarrow> (nat \<Rightarrow> nat) \<times> match \<Rightarrow>
    (nat \<Rightarrow> nat) \<times> match" where
  "row i blo bhi j2len [] st = st"
| "row i blo bhi j2len (j # js) (newj2len, (besti, bestj, bestsize)) =
     (if j < blo then row i blo bhi j2len js (newj2len, (besti, bestj, bestsize))
      else if bhi \<le> j then (newj2len, (besti, bestj, bestsize))
      else
        let k = (if j = 0 then 0 else j2len (j - 1)) + 1
        in row i blo bhi j2len js
             (newj2len(j := k),
              if bestsize < k then (i + 1 - k, j + 1 - k, k) else (besti, bestj, bestsize)))"

fun rows :: "'a list \<Rightarrow> 'a list \<Rightarrow> nat \<Rightarrow> nat \<Rightarrow> nat list \<Rightarrow> (nat \<Rightarrow> nat) \<times> match \<Rightarrow>
    (nat \<Rightarrow> nat) \<times> match" where
  "rows a b blo bhi [] st = st"
| "rows a b blo bhi (i # is) (j2len, best) =
     rows a b blo bhi is (row i blo bhi j2len (b2j b (a ! i)) (\<lambda>j. 0, best))"

text \<open>
  The two loops that extend the match to the left and to the right. The loops that
  follow them in the library extend it by junk and never run: there is no junk.
\<close>

function extend_left :: "'a list \<Rightarrow> 'a list \<Rightarrow> nat \<Rightarrow> nat \<Rightarrow> match \<Rightarrow> match" where
  "extend_left a b alo blo (besti, bestj, bestsize) =
     (if alo < besti \<and> blo < bestj \<and> a ! (besti - 1) = b ! (bestj - 1)
      then extend_left a b alo blo (besti - 1, bestj - 1, bestsize + 1)
      else (besti, bestj, bestsize))"
  by pat_completeness auto
termination
  by (relation "measure (\<lambda>(a, b, alo, blo, besti, bestj, bestsize). besti)") auto

declare extend_left.simps [simp del]

function extend_right :: "'a list \<Rightarrow> 'a list \<Rightarrow> nat \<Rightarrow> nat \<Rightarrow> match \<Rightarrow> match" where
  "extend_right a b ahi bhi (besti, bestj, bestsize) =
     (if besti + bestsize < ahi \<and> bestj + bestsize < bhi \<and>
         a ! (besti + bestsize) = b ! (bestj + bestsize)
      then extend_right a b ahi bhi (besti, bestj, bestsize + 1)
      else (besti, bestj, bestsize))"
  by pat_completeness auto
termination
  by (relation "measure (\<lambda>(a, b, ahi, bhi, besti, bestj, bestsize). ahi - (besti + bestsize))")
     auto

declare extend_right.simps [simp del]

definition find_longest_match :: "'a list \<Rightarrow> 'a list \<Rightarrow> nat \<Rightarrow> nat \<Rightarrow> nat \<Rightarrow> nat \<Rightarrow> match" where
  "find_longest_match a b alo ahi blo bhi =
     extend_right a b ahi bhi
       (extend_left a b alo blo
         (snd (rows a b blo bhi [alo..<ahi] (\<lambda>j. 0, (alo, blo, 0)))))"

text \<open>
  What the loops of \<open>find_longest_match\<close> keep: the best match so far lies inside the
  two ranges, at their start while its length is 0, and no length of a row is more than
  the rows and the places of \<open>b\<close> that came before.
\<close>

definition inside :: "nat \<Rightarrow> nat \<Rightarrow> nat \<Rightarrow> nat \<Rightarrow> match \<Rightarrow> bool" where
  "inside alo ahi blo bhi m =
     (case m of
        (i, j, k) \<Rightarrow>
          alo \<le> i \<and> blo \<le> j \<and>
          (if k = 0 then i = alo \<and> j = blo else i + k \<le> ahi \<and> j + k \<le> bhi))"

definition lens_ok :: "nat \<Rightarrow> nat \<Rightarrow> (nat \<Rightarrow> nat) \<Rightarrow> bool" where
  "lens_ok cap blo f = (\<forall>j. f j \<le> cap \<and> f j \<le> j + 1 - blo)"

text \<open>
  The loop of \<open>get_matching_blocks\<close> over its queue, which is a stack: the list holds
  it from its end. The loop ends because a match lies inside the ranges it was looked
  for in; the proof is with the properties of the library.
\<close>

function blocks_loop :: "'a list \<Rightarrow> 'a list \<Rightarrow> (nat \<times> nat \<times> nat \<times> nat) list \<Rightarrow> match list \<Rightarrow>
    match list" where
  "blocks_loop a b [] matching_blocks = matching_blocks"
| "blocks_loop a b ((alo, ahi, blo, bhi) # queue) matching_blocks =
     (case find_longest_match a b alo ahi blo bhi of
        (i, j, k) \<Rightarrow>
          if k \<noteq> 0 then
            blocks_loop a b
              ((if i + k < ahi \<and> j + k < bhi then [(i + k, ahi, j + k, bhi)] else []) @
               (if alo < i \<and> blo < j then [(alo, i, blo, j)] else []) @ queue)
              (matching_blocks @ [(i, j, k)])
          else blocks_loop a b queue matching_blocks)"
  by pat_completeness auto

text \<open>
  \<open>get_matching_blocks\<close>: the blocks the loop found, sorted; blocks that touch are
  joined; the block of length 0 behind both lists ends the list.
\<close>

definition match_le :: "match \<Rightarrow> match \<Rightarrow> bool" where
  "match_le x y =
     (case (x, y) of
        ((i1, j1, k1), (i2, j2, k2)) \<Rightarrow>
          i1 < i2 \<or> (i1 = i2 \<and> (j1 < j2 \<or> (j1 = j2 \<and> k1 \<le> k2))))"

fun insert_match :: "match \<Rightarrow> match list \<Rightarrow> match list" where
  "insert_match x [] = [x]"
| "insert_match x (y # ys) = (if match_le x y then x # y # ys else y # insert_match x ys)"

definition sort_matches :: "match list \<Rightarrow> match list" where
  "sort_matches xs = foldr insert_match xs []"

fun collapse :: "match \<Rightarrow> match list \<Rightarrow> match list" where
  "collapse (i1, j1, k1) [] = (if k1 \<noteq> 0 then [(i1, j1, k1)] else [])"
| "collapse (i1, j1, k1) ((i2, j2, k2) # rest) =
     (if i1 + k1 = i2 \<and> j1 + k1 = j2 then collapse (i1, j1, k1 + k2) rest
      else (if k1 \<noteq> 0 then [(i1, j1, k1)] else []) @ collapse (i2, j2, k2) rest)"

definition get_matching_blocks :: "'a list \<Rightarrow> 'a list \<Rightarrow> match list" where
  "get_matching_blocks a b =
     collapse (0, 0, 0) (sort_matches (blocks_loop a b [(0, length a, 0, length b)] []))
     @ [(length a, length b, 0)]"

text \<open>\<open>get_opcodes\<close>: the loop over the matching blocks, from the places \<open>i\<close> and \<open>j\<close>.\<close>

datatype optag = Replace | Delete | Insert | Equal

type_synonym opcode = "optag \<times> nat \<times> nat \<times> nat \<times> nat"

fun opcodes_from :: "nat \<Rightarrow> nat \<Rightarrow> match list \<Rightarrow> opcode list" where
  "opcodes_from i j [] = []"
| "opcodes_from i j ((ai, bj, sz) # blocks) =
     (if i < ai \<and> j < bj then [(Replace, i, ai, j, bj)]
      else if i < ai then [(Delete, i, ai, j, bj)]
      else if j < bj then [(Insert, i, ai, j, bj)]
      else []) @
     (if sz \<noteq> 0 then [(Equal, ai, ai + sz, bj, bj + sz)] else []) @
     opcodes_from (ai + sz) (bj + sz) blocks"

definition get_opcodes :: "'a list \<Rightarrow> 'a list \<Rightarrow> opcode list" where
  "get_opcodes a b = opcodes_from 0 0 (get_matching_blocks a b)"

text \<open>
  \<open>get_grouped_opcodes\<close>: the first and the last opcode are cut to \<open>n\<close> lines of
  context when they are \<open>equal\<close>, then the loop splits the opcodes into groups where
  more than \<open>2n\<close> lines are equal. The generator yields the groups in this order.
\<close>

definition fix_first :: "nat \<Rightarrow> opcode list \<Rightarrow> opcode list" where
  "fix_first n codes =
     (case codes of
        (Equal, i1, i2, j1, j2) # rest \<Rightarrow> (Equal, max i1 (i2 - n), i2, max j1 (j2 - n), j2) # rest
      | _ \<Rightarrow> codes)"

fun fix_last :: "nat \<Rightarrow> opcode list \<Rightarrow> opcode list" where
  "fix_last n [] = []"
| "fix_last n [(tag, i1, i2, j1, j2)] =
     (if tag = Equal then [(tag, i1, min i2 (i1 + n), j1, min j2 (j1 + n))]
      else [(tag, i1, i2, j1, j2)])"
| "fix_last n (c # c' # codes) = c # fix_last n (c' # codes)"

fun group_loop :: "nat \<Rightarrow> opcode list \<Rightarrow> opcode list \<Rightarrow> opcode list list" where
  "group_loop n grp [] =
     (case grp of
        [] \<Rightarrow> []
      | [(tag, r)] \<Rightarrow> if tag = Equal then [] else [grp]
      | _ \<Rightarrow> [grp])"
| "group_loop n grp ((tag, i1, i2, j1, j2) # codes) =
     (if tag = Equal \<and> n + n < i2 - i1
      then (grp @ [(tag, i1, min i2 (i1 + n), j1, min j2 (j1 + n))]) #
           group_loop n [(tag, max i1 (i2 - n), i2, max j1 (j2 - n), j2)] codes
      else group_loop n (grp @ [(tag, i1, i2, j1, j2)]) codes)"

definition get_grouped_opcodes :: "'a list \<Rightarrow> 'a list \<Rightarrow> nat \<Rightarrow> opcode list list" where
  "get_grouped_opcodes a b n =
     (let codes = get_opcodes a b;
          codes = (if codes = [] then [(Equal, 0, 1, 0, 1)] else codes)
      in group_loop n [] (fix_last n (fix_first n codes)))"

text \<open>\<open>_format_range_unified\<close>, and the slice \<open>xs[i:j]\<close> for \<open>i \<le> j\<close>.\<close>

definition format_range_unified :: "nat \<Rightarrow> nat \<Rightarrow> string" where
  "format_range_unified start stop =
     (let beginning = start + 1; len = stop - start
      in if len = 1 then str_int (int beginning)
         else if len = 0 then str_int (int beginning - 1) @ '','' @ str_int (int len)
         else str_int (int beginning) @ '','' @ str_int (int len))"

definition slice :: "'a list \<Rightarrow> nat \<Rightarrow> nat \<Rightarrow> 'a list" where
  "slice xs i j = take (j - i) (drop i xs)"

text \<open>
  \<open>unified_diff(a, b, fromfile, tofile, n=n)\<close>, with no file dates and the line end
  \<open>\n\<close>: the two lines that name the files before the first group, then for each
  group the line of its ranges and its lines.
\<close>

definition opcode_lines :: "string list \<Rightarrow> string list \<Rightarrow> opcode \<Rightarrow> string list" where
  "opcode_lines a b c =
     (case c of
        (tag, i1, i2, j1, j2) \<Rightarrow>
          if tag = Equal then map (\<lambda>line. '' '' @ line) (slice a i1 i2)
          else
            (if tag = Replace \<or> tag = Delete then map (\<lambda>line. ''-'' @ line) (slice a i1 i2)
             else []) @
            (if tag = Replace \<or> tag = Insert then map (\<lambda>line. ''+'' @ line) (slice b j1 j2)
             else []))"

definition group_lines :: "string list \<Rightarrow> string list \<Rightarrow> opcode list \<Rightarrow> string list" where
  "group_lines a b grp =
     (case grp of
        [] \<Rightarrow> []
      | first # rest \<Rightarrow>
          (case (first, last grp) of
             ((t1, f1, f2, f3, f4), (t2, l1, l2, l3, l4)) \<Rightarrow>
               (''@@ -'' @ format_range_unified f1 l2 @ '' +'' @ format_range_unified f3 l4 @
                '' @@'' @ newline) #
               concat (map (opcode_lines a b) grp)))"

definition unified_diff :: "string list \<Rightarrow> string list \<Rightarrow> string \<Rightarrow> string \<Rightarrow> nat \<Rightarrow> string list"
  where
  "unified_diff a b fromfile tofile n =
     (case get_grouped_opcodes a b n of
        [] \<Rightarrow> []
      | groups \<Rightarrow>
          [''--- '' @ fromfile @ newline, ''+++ '' @ tofile @ newline] @
          concat (map (group_lines a b) groups))"

section \<open>Diff renderer\<close>

text \<open>
  \<open>str.splitlines(keepends=True)\<close>. \<open>line_end s\<close> is the number of bytes of the line
  boundary \<open>s\<close> starts with: \<open>\r\n\<close>, one of \<open>\n\<close>, \<open>\r\<close>, \<open>\v\<close>, \<open>\f\<close>, U+001C, U+001D,
  U+001E, or one of U+0085, U+2028, U+2029; and 0 when it starts with none.
\<close>

fun line_end :: "string \<Rightarrow> nat" where
  "line_end [] = 0"
| "line_end (c # cs) =
     (if c = CHR 0x0D then (case cs of [] \<Rightarrow> 1 | c' # r \<Rightarrow> if c' = CHR 0x0A then 2 else 1)
      else if c = CHR 0x0A \<or> c = CHR 0x0B \<or> c = CHR 0x0C \<or>
              c = CHR 0x1C \<or> c = CHR 0x1D \<or> c = CHR 0x1E then 1
      else if c = CHR 0xC2 \<and> take 1 cs = [CHR 0x85] then 2
      else if c = CHR 0xE2 \<and> (take 2 cs = [CHR 0x80, CHR 0xA8] \<or> take 2 cs = [CHR 0x80, CHR 0xA9])
        then 3
      else 0)"

function splitlines_from :: "string \<Rightarrow> string \<Rightarrow> string list" where
  "splitlines_from line [] = (if line = [] then [] else [line])"
| "splitlines_from line (c # cs) =
     (if line_end (c # cs) = 0 then splitlines_from (line @ [c]) cs
      else (line @ take (line_end (c # cs)) (c # cs)) #
           splitlines_from [] (drop (line_end (c # cs)) (c # cs)))"
  by pat_completeness auto
termination
  by (relation "measure (\<lambda>(line, s). length s)") auto

definition splitlines :: "string \<Rightarrow> string list" where
  "splitlines s = splitlines_from [] s"

text \<open>\<open>html_to_text\<close> of both comparison endpoints.\<close>

definition html_to_text :: "env \<Rightarrow> string option \<Rightarrow> string" where
  "html_to_text env html =
     (if \<not> truthy html then []
      else
        let text = replace ''</p>'' newline
                     (replace ''<p>'' newline (case html of None \<Rightarrow> [] | Some h \<Rightarrow> h));
            text = re_sub any_tag [] text
        in unescape env text)"

text \<open>
  The loop of \<open>html_diff_with_highlighting\<close> over the lines of the diff, for one line;
  the list \<open>diff_html\<close> that the loop fills; and the function, with the two names the
  endpoint gives to \<open>unified_diff\<close>.
\<close>

definition diff_block :: "string \<Rightarrow> string" where
  \<open>diff_block line =
     (if take 1 line = ''+'' then ''<div class="diff-added">+ '' @ escape (drop 1 line) @ ''</div>''
      else if take 1 line = ''-''
        then ''<div class="diff-removed">- '' @ escape (drop 1 line) @ ''</div>''
      else if take 1 line = ''@'' then ''<div class="diff-header">'' @ escape line @ ''</div>''
      else ''<div class="diff-context">'' @ escape line @ ''</div>'')\<close>

definition no_changes :: string where
  \<open>no_changes = ''<div class="no-changes">No changes detected</div>''\<close>

definition diff_html :: "env \<Rightarrow> string \<Rightarrow> string \<Rightarrow> string option \<Rightarrow> string option \<Rightarrow> string list"
  where
  "diff_html env fromfile tofile old_html new_html =
     (let old_text = html_to_text env old_html;
          new_text = html_to_text env new_html;
          diff = unified_diff (splitlines old_text) (splitlines new_text) fromfile tofile 3
      in map diff_block diff)"

definition html_diff_with_highlighting ::
  "env \<Rightarrow> string \<Rightarrow> string \<Rightarrow> string option \<Rightarrow> string option \<Rightarrow> string" where
  "html_diff_with_highlighting env fromfile tofile old_html new_html =
     (let diff_html = diff_html env fromfile tofile old_html new_html
      in if diff_html \<noteq> [] then concat diff_html else no_changes)"

text \<open>The number of blocks of a class among the blocks of a rendered diff.\<close>

definition blocks_of_class :: "string \<Rightarrow> string list \<Rightarrow> nat" where
  \<open>blocks_of_class c blocks =
     length (filter (prefix (''<div class="'' @ c @ ''">'')) blocks)\<close>

text \<open>
  For the diff of a list with itself: the number of elements that are not popular
  in a row before the place \<open>j\<close> of \<open>b\<close>.
\<close>

fun run_before :: "'a list \<Rightarrow> nat \<Rightarrow> nat" where
  "run_before b 0 = 0"
| "run_before b (Suc j) = (if popular b (b ! j) then 0 else run_before b j + 1)"

declare run_before.simps [simp del]

text \<open>
  What the first loop of \<open>find_longest_match\<close> keeps when it compares \<open>b\<close> with
  itself, before the row \<open>m\<close>: the lengths of the row before are bounded by the runs, and
  by the run before \<open>m\<close>, which is the length at the place \<open>m - 1\<close>; the best match is
  on the diagonal and at least as long as every run so far.
\<close>

definition row_ok :: "'a list \<Rightarrow> nat \<Rightarrow> (nat \<Rightarrow> nat) \<Rightarrow> bool" where
  "row_ok b m f =
     ((\<forall>j. f j \<le> run_before b (Suc j)) \<and> (\<forall>j. f j \<le> run_before b m) \<and>
      (0 < m \<longrightarrow> f (m - 1) = run_before b m))"

definition best_ok :: "'a list \<Rightarrow> nat \<Rightarrow> match \<Rightarrow> bool" where
  "best_ok b m best =
     (case best of (i, j, k) \<Rightarrow> i = j \<and> (\<forall>j'. j' \<le> m \<longrightarrow> run_before b j' \<le> k))"

section \<open>HTTP endpoints\<close>

text \<open>
  What an endpoint returns: \<open>request.not_found()\<close>, or the response that
  \<open>request.make_response\<close> builds from a body and headers.
\<close>

datatype response = NotFound | Response string "(string \<times> string) list"

text \<open>
  What the endpoints take from outside the sources. The access list of the models,
  \<open>security/ir.model.access.csv\<close>, is data of the module that the manifest loads (it
  loads no rule per record): \<open>access_error site model u\<close> is the text of the
  \<open>AccessError\<close> that the user \<open>u\<close> gets on reading a field of a record of the model,
  and \<open>None\<close> when the list lets the user read. \<open>content_disposition\<close> is the function
  of the framework, and \<open>wkhtmltopdf\<close> the renderer with the temporary files around it:
  from the markup, the bytes of the file it wrote, or the text of the exception raised on
  the way (the renderer missing, a return code other than 0, a timeout).
\<close>

record site =
  access_error :: "string \<Rightarrow> uid \<Rightarrow> string option"
  content_disposition :: "string \<Rightarrow> string"
  wkhtmltopdf :: "string \<Rightarrow> string + string"

text \<open>The first \<open>AccessError\<close> on reading the models in the order given.\<close>

fun first_error :: "site \<Rightarrow> env \<Rightarrow> string list \<Rightarrow> string option" where
  "first_error site env [] = None"
| "first_error site env (m # ms) =
     (case access_error site m (user env) of
        None \<Rightarrow> first_error site env ms
      | Some e \<Rightarrow> Some e)"

text \<open>The name of the exported file, without its extension, and the page of a failure.\<close>

definition export_filename :: "entry \<Rightarrow> string" where
  "export_filename entry =
     ''journal_entry_'' @ replace '' '' ''_'' (name entry) @ ''_'' @ str_date (entry_date entry)"

definition error_html :: "string \<Rightarrow> string" where
  \<open>error_html msg =
     unlines
     [[],
      ''            <html>'',
      ''            <body>'',
      ''                <h1>PDF Export Failed</h1>'',
      ''                <p>Could not generate PDF file.</p>'',
      ''                <p>Error: '' @ msg @ ''</p>'',
      ''                <p>Please check Odoo server logs for details.</p>'',
      ''            </body>'',
      ''            </html>'']
     @ ''            ''\<close>

definition error_response :: "string \<Rightarrow> response" where
  "error_response msg = Response (error_html msg) [(''Content-Type'', ''text/html'')]"

text \<open>
  \<open>export_pdf\<close>, the argument \<open>entry_id\<close> of the route written \<open>entry_ref\<close> here and
  below. Every exception inside it ends in the page of a failure, also the
  \<open>AccessError\<close> from reading the owner of the entry, and from the notebook and the tags
  that the markup names, and the \<open>AttributeError\<close> of the markup for an entry without a
  state: the page shows \<open>str(e)\<close>, the text the exception carries.
\<close>

definition export_pdf :: "site \<Rightarrow> env \<Rightarrow> db \<Rightarrow> nat \<Rightarrow> response" where
  "export_pdf site env d entry_ref =
     (case browse_entry d entry_ref of
        None \<Rightarrow> NotFound
      | Some entry \<Rightarrow>
          (case access_error site ''journal.entry'' (user env) of
             Some e \<Rightarrow> error_response e
           | None \<Rightarrow>
               if user_id entry \<noteq> user env then NotFound
               else
                 (case first_error site env
                         (''journal.notebook'' #
                          (if tag_ids entry \<noteq> [] then [''journal.tag''] else [])) of
                    Some e \<Rightarrow> error_response e
                  | None \<Rightarrow>
                      (case generate_pdf_html_content env d entry of
                         Inl e \<Rightarrow> error_response (case e of AttributeError msg \<Rightarrow> msg | _ \<Rightarrow> [])
                       | Inr html_content \<Rightarrow>
                           (case wkhtmltopdf site html_content of
                              Inl e \<Rightarrow> error_response e
                            | Inr pdf_content \<Rightarrow>
                                Response pdf_content
                                  [(''Content-Type'', ''application/pdf''),
                                   (''Content-Disposition'',
                                    content_disposition site (export_filename entry @ ''.pdf'')),
                                   (''Content-Length'',
                                    str_int (int (length pdf_content)))])))))"

text \<open>\<open>export_markdown\<close>. An exception ends in \<open>not_found\<close>.\<close>

definition export_markdown :: "site \<Rightarrow> env \<Rightarrow> db \<Rightarrow> nat \<Rightarrow> response" where
  "export_markdown site env d entry_ref =
     (case browse_entry d entry_ref of
        None \<Rightarrow> NotFound
      | Some entry \<Rightarrow>
          if access_error site ''journal.entry'' (user env) \<noteq> None then NotFound
          else if user_id entry \<noteq> user env then NotFound
          else if first_error site env
                    (''journal.notebook'' #
                     (if tag_ids entry \<noteq> [] then [''journal.tag''] else [])) \<noteq> None
            then NotFound
          else
            (case generate_markdown_content env d entry of
               Inl e \<Rightarrow> NotFound
             | Inr markdown_content \<Rightarrow>
                 Response markdown_content
                   [(''Content-Type'', ''text/markdown; charset=utf-8''),
                    (''Content-Disposition'',
                     content_disposition site (export_filename entry @ ''.md''))]))"

text \<open>The page of \<open>compare_versions\<close>, and the endpoint.\<close>

definition compare_page :: "db \<Rightarrow> entry \<Rightarrow> version \<Rightarrow> version \<Rightarrow> string \<Rightarrow> string" where
  \<open>compare_page d entry version1 version2 diff_content =
     unlines
     [[],
      ''            <!DOCTYPE html>'',
      ''            <html>'',
      ''            <head>'',
      ''                <meta charset="UTF-8">'',
      ''                <title>Compare: '' @ escape (name entry) @ ''</title>'',
      ''                <style>'',
      ''                    body { font-family: Arial, sans-serif; margin: 20px; line-height: 1.6; }'',
      ''                    .header { background: #f8f9fa; padding: 20px; border-radius: 5px; margin-bottom: 20px; }'',
      ''                    .comparison-container { display: flex; gap: 20px; }'',
      ''                    .version-panel { flex: 1; border: 1px solid #dee2e6; border-radius: 5px; overflow: hidden; }'',
      ''                    .version-header { background: #e9ecef; padding: 15px; border-bottom: 1px solid #dee2e6; }'',
      ''                    .version-content { padding: 15px; max-height: 600px; overflow-y: auto; }'',
      ''                    .diff-container { flex: 1; border: 1px solid #dee2e6; border-radius: 5px; overflow: hidden; }'',
      ''                    .diff-header { background: #e9ecef; padding: 15px; border-bottom: 1px solid #dee2e6; }'',
      ''                    .diff-content { padding: 15px; max-height: 600px; overflow-y: auto; font-family: monospace; }'',
      ''                    .diff-added { background: #d4edda; color: #155724; padding: 2px 5px; margin: 1px 0; }'',
      ''                    .diff-removed { background: #f8d7da; color: #721c24; padding: 2px 5px; margin: 1px 0; }'',
      ''                    .diff-context { color: #6c757d; padding: 2px 5px; margin: 1px 0; }'',
      ''                    .diff-header { background: #fff3cd; color: #856404; padding: 5px; font-weight: bold; }'',
      ''                    .no-changes { color: #6c757d; font-style: italic; text-align: center; padding: 20px; }'',
      ''                    .back-button { margin-bottom: 20px; }'',
      ''                    .btn { padding: 8px 16px; background: #007bff; color: white; border: none; border-radius: 4px; cursor: pointer; text-decoration: none; display: inline-block; }'',
      ''                    .btn:hover { background: #0056b3; }'',
      ''                </style>'',
      ''            </head>'',
      ''            <body>'',
      ''                <div class="header">'',
      ''                    <h1>Compare Versions: '' @ escape (name entry) @ ''</h1>'',
      ''                    <p>Entry: '' @ escape (name entry) @ '' | Notebook: '' @ escape (notebook_name_of d entry) @ ''</p>'',
      ''                </div>'',
      [],
      ''                <div class="comparison-container">'',
      ''                    <div class="version-panel">'',
      ''                        <div class="version-header">'',
      ''                            <h3>Version '' @ str_int (version_number version1) @ ''</h3>'',
      ''                            <small>Created: '' @ str_datetime (create_date version1) @ '' | '' @ str_int (version_word_count version1) @ '' words | '' @ str_int (version_char_count version1) @ '' chars</small>'',
      ''                        </div>'',
      ''                        <div class="version-content">'',
      ''                            '' @ content_or (version_content version1) ''<p><em>No content</em></p>'',
      ''                        </div>'',
      ''                    </div>'',
      [],
      ''                    <div class="version-panel">'',
      ''                        <div class="version-header">'',
      ''                            <h3>Version '' @ str_int (version_number version2) @ ''</h3>'',
      ''                            <small>Created: '' @ str_datetime (create_date version2) @ '' | '' @ str_int (version_word_count version2) @ '' words | '' @ str_int (version_char_count version2) @ '' chars</small>'',
      ''                        </div>'',
      ''                        <div class="version-content">'',
      ''                            '' @ content_or (version_content version2) ''<p><em>No content</em></p>'',
      ''                        </div>'',
      ''                    </div>'',
      ''                </div>'',
      [],
      ''                <div style="margin-top: 30px;">'',
      ''                    <div class="diff-container">'',
      ''                        <div class="diff-header">'',
      ''                            <h3>Change Highlights</h3>'',
      ''                            <small>Green = Added, Red = Removed, Gray = Unchanged</small>'',
      ''                        </div>'',
      ''                        <div class="diff-content">'',
      ''                            '' @ diff_content,
      ''                        </div>'',
      ''                    </div>'',
      ''                </div>'',
      ''            </body>'',
      ''            </html>'']
     @ ''            ''\<close>

definition compare_versions :: "site \<Rightarrow> env \<Rightarrow> db \<Rightarrow> nat \<Rightarrow> nat \<Rightarrow> nat \<Rightarrow> response" where
  "compare_versions site env d entry_ref version1_id version2_id =
     (case (browse_entry d entry_ref, browse_version d version1_id,
            browse_version d version2_id) of
        (Some entry, Some version1, Some version2) \<Rightarrow>
          if first_error site env
               [''journal.entry.version'', ''journal.entry'', ''journal.notebook''] \<noteq> None
          then NotFound
          else
            let diff_content =
                  html_diff_with_highlighting env
                    (''Version '' @ str_int (version_number version1))
                    (''Version '' @ str_int (version_number version2))
                    (version_content version1) (version_content version2)
            in Response (compare_page d entry version1 version2 diff_content)
                 [(''Content-Type'', ''text/html; charset=utf-8'')]
      | _ \<Rightarrow> NotFound)"

text \<open>The page of \<open>compare_with_current\<close>, and the endpoint.\<close>

definition compare_current_page :: "db \<Rightarrow> entry \<Rightarrow> version \<Rightarrow> string \<Rightarrow> string" where
  \<open>compare_current_page d entry version diff_content =
     unlines
     [[],
      ''            <!DOCTYPE html>'',
      ''            <html>'',
      ''            <head>'',
      ''                <meta charset="UTF-8">'',
      ''                <title>Compare with Current: '' @ escape (name entry) @ ''</title>'',
      ''                <style>'',
      ''                    body { font-family: Arial, sans-serif; margin: 20px; line-height: 1.6; }'',
      ''                    .header { background: #f8f9fa; padding: 20px; border-radius: 5px; margin-bottom: 20px; }'',
      ''                    .comparison-container { display: flex; gap: 20px; }'',
      ''                    .version-panel { flex: 1; border: 1px solid #dee2e6; border-radius: 5px; overflow: hidden; }'',
      ''                    .version-header { background: #e9ecef; padding: 15px; border-bottom: 1px solid #dee2e6; }'',
      ''                    .version-content { padding: 15px; max-height: 600px; overflow-y: auto; }'',
      ''                    .current-version { border: 2px solid #28a745; }'',
      ''                    .diff-container { flex: 1; border: 1px solid #dee2e6; border-radius: 5px; overflow: hidden; }'',
      ''                    .diff-header { background: #e9ecef; padding: 15px; border-bottom: 1px solid #dee2e6; }'',
      ''                    .diff-content { padding: 15px; max-height: 600px; overflow-y: auto; font-family: monospace; }'',
      ''                    .diff-added { background: #d4edda; color: #155724; padding: 2px 5px; margin: 1px 0; }'',
      ''                    .diff-removed { background: #f8d7da; color: #721c24; padding: 2px 5px; margin: 1px 0; }'',
      ''                    .diff-context { color: #6c757d; padding: 2px 5px; margin: 1px 0; }'',
      ''                    .diff-header { background: #fff3cd; color: #856404; padding: 5px; font-weight: bold; }'',
      ''                    .no-changes { color: #6c757d; font-style: italic; text-align: center; padding: 20px; }'',
      ''                    .back-button { margin-bottom: 20px; }'',
      ''                    .btn { padding: 8px 16px; background: #007bff; color: white; border: none; border-radius: 4px; cursor: pointer; text-decoration: none; display: inline-block; }'',
      ''                    .btn:hover { background: #0056b3; }'',
      ''                </style>'',
      ''            </head>'',
      ''            <body>'',
      ''                <div class="header">'',
      ''                    <h1>Compare with Current: '' @ escape (name entry) @ ''</h1>'',
      ''                    <p>Entry: '' @ escape (name entry) @ '' | Notebook: '' @ escape (notebook_name_of d entry) @ ''</p>'',
      ''                </div>'',
      [],
      ''                <div class="comparison-container">'',
      ''                    <div class="version-panel">'',
      ''                        <div class="version-header">'',
      ''                            <h3>Version '' @ str_int (version_number version) @ ''</h3>'',
      ''                            <small>Created: '' @ str_datetime (create_date version) @ '' | '' @ str_int (version_word_count version) @ '' words | '' @ str_int (version_char_count version) @ '' chars</small>'',
      ''                        </div>'',
      ''                        <div class="version-content">'',
      ''                            '' @ content_or (version_content version) ''<p><em>No content</em></p>'',
      ''                        </div>'',
      ''                    </div>'',
      [],
      ''                    <div class="version-panel current-version">'',
      ''                        <div class="version-header">'',
      ''                            <h3>Current Version (v'' @ str_int (current_version entry - 1) @ '')</h3>'',
      ''                            <small>Latest '' @ [CHR 0xE2, CHR 0x80, CHR 0xA2] @ '' '' @ str_int (word_count entry) @ '' words | '' @ str_int (char_count entry) @ '' chars</small>'',
      ''                        </div>'',
      ''                        <div class="version-content">'',
      ''                            '' @ content_or (content entry) ''<p><em>No content</em></p>'',
      ''                        </div>'',
      ''                    </div>'',
      ''                </div>'',
      [],
      ''                <div style="margin-top: 30px;">'',
      ''                    <div class="diff-container">'',
      ''                        <div class="diff-header">'',
      ''                            <h3>Change Highlights</h3>'',
      ''                            <small>Green = Added in current, Red = Removed from version, Gray = Unchanged</small>'',
      ''                        </div>'',
      ''                        <div class="diff-content">'',
      ''                            '' @ diff_content,
      ''                        </div>'',
      ''                    </div>'',
      ''                </div>'',
      ''            </body>'',
      ''            </html>'']
     @ ''            ''\<close>

definition compare_with_current :: "site \<Rightarrow> env \<Rightarrow> db \<Rightarrow> nat \<Rightarrow> nat \<Rightarrow> response" where
  "compare_with_current site env d entry_ref version_id =
     (case (browse_entry d entry_ref, browse_version d version_id) of
        (Some entry, Some version) \<Rightarrow>
          if first_error site env
               [''journal.entry.version'', ''journal.entry'', ''journal.notebook''] \<noteq> None
          then NotFound
          else
            let diff_content =
                  html_diff_with_highlighting env
                    (''Version '' @ str_int (version_number version)) ''Current Version''
                    (version_content version) (content entry)
            in Response (compare_current_page d entry version diff_content)
                 [(''Content-Type'', ''text/html; charset=utf-8'')]
      | _ \<Rightarrow> NotFound)"

text \<open>
  Sample data: a site where the access list lets every user read and the renderer
  fails, the database of the edited sample entry with its notebook, and a second user.
\<close>

definition open_site :: site where
  "open_site = \<lparr>access_error = (\<lambda>m u. None), content_disposition = (\<lambda>n. ''attachment; filename='' @ n),
     wkhtmltopdf = (\<lambda>html. Inl ''PDF generation timed out'')\<rparr>"

definition shared_db :: db where
  "shared_db = edited_db\<lparr>notebooks := [demo_notebook]\<rparr>"

definition visitor_env :: env where
  "visitor_env = demo_env\<lparr>user := 8\<rparr>"

chapter \<open>Properties\<close>

section \<open>Version store\<close>

lemma find_update_eid:
  "(\<And>e. eid (f e) = eid e) \<Longrightarrow>
   find (\<lambda>e. eid e = j) (map (\<lambda>e. if eid e = i then f e else e) xs) =
     (if i = j then map_option f (find (\<lambda>e. eid e = j) xs) else find (\<lambda>e. eid e = j) xs)"
  by (induction xs) auto

lemma browse_entry_update:
  "(\<And>e. eid (f e) = eid e) \<Longrightarrow>
   browse_entry (update_entry i f d) j =
     (if i = j then map_option f (browse_entry d j) else browse_entry d j)"
  by (simp add: browse_entry_def update_entry_def find_update_eid)

lemma eid_assign: "eid (assign env vals e) = eid e"
  by (simp add: assign_def Let_def)

lemma no_duplicate:
  "list_all (\<lambda>v. version_number v < n) (filter (\<lambda>v. entry_id v = i) vs) \<Longrightarrow>
   \<not> list_ex (\<lambda>v. entry_id v = i \<and> version_number v = n) vs"
  by (induction vs) (auto split: if_splits)

lemma create_version_of_snapshot:
  assumes "browse_entry d i = Some e" and "truthy (content e)" and "numbers_below d i"
  shows "create_version_of env i d =
     Inr (update_entry i (\<lambda>r. r\<lparr>current_version := current_version r + 1\<rparr>)
           (d\<lparr>versions := versions d @
                  [\<lparr>vid = Suc (version_seq d), entry_id = i, created_by = user env,
                    version_number = current_version e, version_content = content e,
                    version_word_count = word_count e, version_char_count = char_count e,
                    create_date = now env\<rparr>],
               version_seq := Suc (version_seq d)\<rparr>))"
proof -
  from assms have "\<not> list_ex (\<lambda>v. entry_id v = i \<and> version_number v = current_version e) (versions d)"
    by (simp add: numbers_below_def version_ids_def no_duplicate)
  with assms(1,2) show ?thesis
    by (simp add: create_version_of_def version_create_def)
qed

lemma create_version_of_empty:
  assumes "browse_entry d i = Some e" and "\<not> truthy (content e)"
  shows "create_version_of env i d = Inr d"
  using assms by (simp add: create_version_of_def)

lemma constraints_one:
  assumes "acceptable env vals"
  shows "constraints env vals [assign env vals e] = None"
  using assms
  by (auto simp: acceptable_def constraints_def check_entry_date_def check_name_length_def
        assign_def Let_def split: option.splits)

lemma orm_write_one:
  assumes "browse_entry d i = Some e" and "acceptable env vals"
  shows "orm_write env [i] vals d = Inr (update_entry i (assign env vals) d)"
  using assms
  by (simp add: orm_write_def browse_entry_update eid_assign List.map_filter_simps
        constraints_one)

lemma version_ids_update_entry [simp]: "version_ids (update_entry i f d) j = version_ids d j"
  by (simp add: version_ids_def update_entry_def)

lemma versions_update_entry [simp]: "versions (update_entry i f d) = versions d"
  by (simp add: update_entry_def)

text \<open>One write of one entry.\<close>

lemma entry_write_content:
  assumes "browse_entry d i = Some e" and "truthy (content e)" and "numbers_below d i"
    and "set_content vals = Some c" and "acceptable env vals"
  shows "\<exists>d'. entry_write env [i] vals d = Inr d' \<and>
           versions d' = versions d @
             [\<lparr>vid = Suc (version_seq d), entry_id = i, created_by = user env,
               version_number = current_version e, version_content = content e,
               version_word_count = word_count e, version_char_count = char_count e,
               create_date = now env\<rparr>] \<and>
           browse_entry d' i =
             Some (assign env vals (e\<lparr>current_version := current_version e + 1\<rparr>))"
proof -
  let ?d1 = "update_entry i (\<lambda>r. r\<lparr>current_version := current_version r + 1\<rparr>)
           (d\<lparr>versions := versions d @
                  [\<lparr>vid = Suc (version_seq d), entry_id = i, created_by = user env,
                    version_number = current_version e, version_content = content e,
                    version_word_count = word_count e, version_char_count = char_count e,
                    create_date = now env\<rparr>],
               version_seq := Suc (version_seq d)\<rparr>)"
  have b: "browse_entry (d\<lparr>versions := vs, version_seq := k\<rparr>) i = Some e" for vs k
    using assms(1) by (simp add: browse_entry_def)
  have 1: "create_version env [i] d = Inr ?d1"
    using create_version_of_snapshot [OF assms(1,2,3)] by simp
  have 2: "browse_entry ?d1 i = Some (e\<lparr>current_version := current_version e + 1\<rparr>)"
    by (simp add: browse_entry_update b)
  have 3: "orm_write env [i] vals ?d1 = Inr (update_entry i (assign env vals) ?d1)"
    using orm_write_one [OF 2 assms(5)] .
  have 4: "entry_write env [i] vals d = Inr (update_entry i (assign env vals) ?d1)"
    unfolding entry_write_def by (simp add: assms(4) 1 3 del: create_version.simps)
  have 5: "browse_entry (update_entry i (assign env vals) ?d1) i =
      Some (assign env vals (e\<lparr>current_version := current_version e + 1\<rparr>))"
    by (simp add: browse_entry_update [of "assign env vals", OF eid_assign] 2)
  show ?thesis
    by (intro exI conjI, rule 4, simp, rule 5)
qed

lemma entry_write_no_snapshot:
  assumes "browse_entry d i = Some e" and "set_content vals = None \<or> \<not> truthy (content e)"
    and "acceptable env vals"
  shows "entry_write env [i] vals d = Inr (update_entry i (assign env vals) d)"
proof -
  have "(if set_content vals \<noteq> None then create_version env [i] d else Inr d) = Inr d"
    using assms(1,2) by (auto simp: create_version_of_def)
  then show ?thesis
    using orm_write_one [OF assms(1,3)] by (simp add: entry_write_def)
qed

lemma numbers_below_snapshot:
  assumes "browse_entry d i = Some e" and "numbers_below d i"
    and "browse_entry d' i = Some e'" and "current_version e' = current_version e + 1"
    and "versions d' = versions d @ [v]" and "version_number v = current_version e"
  shows "numbers_below d' i"
proof -
  have "list_all (\<lambda>v. version_number v < current_version e + 1) (version_ids d i)"
    using assms(1,2) by (auto simp: numbers_below_def list_all_iff)
  then show ?thesis
    using assms(3-6) by (simp add: numbers_below_def version_ids_def)
qed

lemma content_assign:
  "content (assign env vals e) = (case set_content vals of None \<Rightarrow> content e | Some c \<Rightarrow> c)"
  by (simp add: assign_def Let_def)

lemma current_version_assign: "current_version (assign env vals e) = current_version e"
  by (simp add: assign_def Let_def)








text \<open>
  Restoring a version of an entry with non-empty content appends two versions, both of
  the content before the restore: the snapshot of \<open>action_restore_version\<close> itself and
  the snapshot of the \<open>write\<close> it calls, whose values have the key \<open>content\<close>.
\<close>

lemma restore_snapshots_twice:
  assumes "browse_entry d i = Some e" and "truthy (content e)" and "numbers_below d i"
    and "browse_version d k = Some v" and "entry_id v = i"
  shows "\<exists>d' e' v1 v2. action_restore_version env [i] k d = Inr d' \<and>
           versions d' = versions d @ [v1, v2] \<and>
           entry_id v1 = i \<and> entry_id v2 = i \<and>
           version_number v1 = current_version e \<and>
           version_number v2 = current_version e + 1 \<and>
           version_content v1 = content e \<and> version_content v2 = content e \<and>
           browse_entry d' i = Some e' \<and>
           current_version e' = current_version e + 2 \<and>
           content e' = version_content v"
proof -
  let ?v1 = "\<lparr>vid = Suc (version_seq d), entry_id = i, created_by = user env,
               version_number = current_version e, version_content = content e,
               version_word_count = word_count e, version_char_count = char_count e,
               create_date = now env\<rparr>"
  let ?d1 = "update_entry i (\<lambda>r. r\<lparr>current_version := current_version r + 1\<rparr>)
           (d\<lparr>versions := versions d @ [?v1], version_seq := Suc (version_seq d)\<rparr>)"
  let ?e1 = "e\<lparr>current_version := current_version e + 1\<rparr>"
  let ?vals = "no_vals\<lparr>set_content := Some (version_content v),
                 set_word_count := Some (version_word_count v),
                 set_char_count := Some (version_char_count v)\<rparr>"
  have b: "browse_entry (d\<lparr>versions := vs, version_seq := n\<rparr>) i = Some e" for vs n
    using assms(1) by (simp add: browse_entry_def)
  have 1: "create_version env [i] d = Inr ?d1"
    using create_version_of_snapshot [OF assms(1,2,3)] by simp
  have 2: "browse_entry ?d1 i = Some ?e1"
    by (simp add: browse_entry_update b)
  have 3: "numbers_below ?d1 i"
    by (rule numbers_below_snapshot [OF assms(1,3) 2, where v = ?v1]) simp_all
  have 4: "truthy (content ?e1)" using assms(2) by simp
  have 5: "acceptable env ?vals" by (simp add: acceptable_def no_vals_def)
  have 6: "set_content ?vals = Some (version_content v)" by simp
  from entry_write_content [OF 2 4 3 6 5]
  obtain d' where d': "entry_write env [i] ?vals ?d1 = Inr d'"
      "versions d' = versions ?d1 @
         [\<lparr>vid = Suc (version_seq ?d1), entry_id = i, created_by = user env,
           version_number = current_version ?e1, version_content = content ?e1,
           version_word_count = word_count ?e1, version_char_count = char_count ?e1,
           create_date = now env\<rparr>]"
      "browse_entry d' i =
         Some (assign env ?vals (?e1\<lparr>current_version := current_version ?e1 + 1\<rparr>))"
    by blast
  have r: "action_restore_version env [i] k d = Inr d'"
    unfolding action_restore_version_def
    by (simp add: assms(4,5) 1 d'(1) del: create_version.simps)
  show ?thesis
    apply (intro exI conjI)
              apply (rule r)
             apply (simp add: d'(2))
            apply simp
           apply simp
          apply simp
         apply simp
        apply simp
       apply simp
      apply (rule d'(3))
     apply (simp add: current_version_assign)
    apply (simp add: content_assign)
    done
qed

text \<open>
  Claim C1 says that restoring a version creates exactly one new version and raises the
  counter by 1. On the sample entry after one edit (one version, counter 2), restoring
  version 1 leaves three versions, numbered 1, 2, 3, the two new ones both holding the
  content before the restore, and the counter 4; the content is that of version 1.
\<close>

theorem C1_restore_snapshots_twice:
  "map version_number (version_ids edited_db 1) = [1] \<and>
   map current_version (entries edited_db) = [2] \<and>
   map_sum id (\<lambda>d. (map version_number (version_ids d 1),
                     map version_content (version_ids d 1),
                     map (\<lambda>e. (content e, current_version e)) (entries d)))
     (action_restore_version demo_env [1] 1 edited_db) =
   Inr ([1, 2, 3],
        [Some ''<p>Hello world</p>'', Some ''<p>Hello there world</p>'',
         Some ''<p>Hello there world</p>''],
        [(Some ''<p>Hello world</p>'', 4)])"
  by code_simp

text \<open>
  What the hook of \<open>write\<close> does. A write of an entry whose values pass the constraints
  succeeds. It appends one version, which holds the content and counts before the
  write under the number of the counter, and the counter grows by 1, when its values
  have the key \<open>content\<close> and the content of the entry before the write is non-empty;
  in every other case the versions and the counter are unchanged.
\<close>

lemma write_snapshots_on_content_key:
  assumes "browse_entry d i = Some e" and "numbers_below d i" and "acceptable env vals"
  shows "\<exists>d' e'. entry_write env [i] vals d = Inr d' \<and> browse_entry d' i = Some e' \<and>
           (if set_content vals \<noteq> None \<and> truthy (content e)
            then versions d' = versions d @
                   [\<lparr>vid = Suc (version_seq d), entry_id = i, created_by = user env,
                     version_number = current_version e, version_content = content e,
                     version_word_count = word_count e, version_char_count = char_count e,
                     create_date = now env\<rparr>] \<and>
                 current_version e' = current_version e + 1
            else versions d' = versions d \<and> current_version e' = current_version e)"
proof (cases "set_content vals \<noteq> None \<and> truthy (content e)")
  case True
  then obtain c where c: "set_content vals = Some c" by auto
  from True have t: "truthy (content e)" by simp
  from entry_write_content [OF assms(1) t assms(2) c assms(3)] True
  show ?thesis by (auto simp: current_version_assign)
next
  case False
  then have n: "set_content vals = None \<or> \<not> truthy (content e)" by simp
  have "entry_write env [i] vals d = Inr (update_entry i (assign env vals) d)"
    by (rule entry_write_no_snapshot [OF assms(1) n assms(3)])
  moreover have "browse_entry (update_entry i (assign env vals) d) i = Some (assign env vals e)"
    by (simp add: browse_entry_update eid_assign assms(1))
  ultimately show ?thesis
    using False by (auto simp: current_version_assign)
qed

text \<open>
  Claim C3, as the code has it by design. The entry exists, its versions are numbered
  below its counter, the values of the write pass the constraints, and the write does
  not give again the non-empty content the entry has. Then the write succeeds, and it
  creates a version exactly when it changes the value of the content and the content
  before the write is non-empty: then it appends one version, which holds the content
  and counts before the write under the number of the counter, and the counter grows by
  1. In every other case, so for every write without the key \<open>content\<close> and for every
  write to an entry whose content is empty, the versions and the counter are unchanged.
\<close>

theorem C3_snapshot_when_content_changes:
  assumes "browse_entry d i = Some e" and "numbers_below d i" and "acceptable env vals"
    and "set_content vals \<noteq> Some (content e) \<or> \<not> truthy (content e)"
  shows "\<exists>d' e'. entry_write env [i] vals d = Inr d' \<and> browse_entry d' i = Some e' \<and>
           (if changes_content vals e \<and> truthy (content e)
            then versions d' = versions d @
                   [\<lparr>vid = Suc (version_seq d), entry_id = i, created_by = user env,
                     version_number = current_version e, version_content = content e,
                     version_word_count = word_count e, version_char_count = char_count e,
                     create_date = now env\<rparr>] \<and>
                 current_version e' = current_version e + 1
            else versions d' = versions d \<and> current_version e' = current_version e)"
proof -
  have "(changes_content vals e \<and> truthy (content e)) =
      (set_content vals \<noteq> None \<and> truthy (content e))"
    using assms(4) by (auto simp: changes_content_def split: option.splits)
  then show ?thesis
    using write_snapshots_on_content_key [OF assms(1,2,3)] by simp
qed

text \<open>The sample edit of the sample entry, which changes its content.\<close>

theorem C3_witness:
  "\<exists>d' e'. entry_write demo_env [1] demo_edit blank_db = Inr d' \<and>
      browse_entry d' 1 = Some e' \<and>
      (if changes_content demo_edit demo_entry \<and> truthy (content demo_entry)
       then versions d' = versions blank_db @
              [\<lparr>vid = Suc (version_seq blank_db), entry_id = 1, created_by = user demo_env,
                version_number = current_version demo_entry,
                version_content = content demo_entry,
                version_word_count = word_count demo_entry,
                version_char_count = char_count demo_entry,
                create_date = now demo_env\<rparr>] \<and>
            current_version e' = current_version demo_entry + 1
       else versions d' = versions blank_db \<and> current_version e' = current_version demo_entry)"
proof -
  have 1: "browse_entry blank_db 1 = Some demo_entry" by code_simp
  have 2: "numbers_below blank_db 1" by code_simp
  have 3: "acceptable demo_env demo_edit" by code_simp
  have 4: "set_content demo_edit \<noteq> Some (content demo_entry) \<or> \<not> truthy (content demo_entry)"
    by code_simp
  show ?thesis by (rule C3_snapshot_when_content_changes [OF 1 2 3 4])
qed

text \<open>
  Claim C3 as stated fails where the content before the write is empty: giving a
  content to the sample entry that has none changes the value of the field and creates
  no version.
\<close>

theorem C3_counterexample:
  "browse_entry blank_db 2 = Some blank_entry \<and>
   changes_content demo_edit blank_entry \<and>
   versions blank_db = [] \<and>
   map_sum id (\<lambda>d. (versions d, map_option content (browse_entry d 2)))
     (entry_write demo_env [2] demo_edit blank_db) =
     Inr ([], Some (Some ''<p>Hello there world</p>''))"
  by code_simp

text \<open>
  A write that gives the sample entry the content it already has: the hook of \<open>write\<close>
  looks at the key, not at the value, and creates version 1.
\<close>

lemma write_same_content_snapshots:
  "browse_entry blank_db 1 = Some demo_entry \<and>
   set_content demo_same = Some (content demo_entry) \<and>
   versions blank_db = [] \<and>
   map_sum id (\<lambda>d. map version_number (versions d))
     (entry_write demo_env [1] demo_same blank_db) = Inr [1]"
  by code_simp

section \<open>Notebooks\<close>

lemma keep_other_notebooks:
  assumes "distinct (map eid es)"
  shows "filter (\<lambda>e. eid e \<notin> set (map eid (filter (\<lambda>e. notebook_id e = n) es))) es =
         filter (\<lambda>e. notebook_id e \<noteq> n) es"
proof (rule filter_cong [OF refl])
  fix e assume e: "e \<in> set es"
  from assms have inj: "inj_on eid (set es)" by (simp add: distinct_map)
  show "(eid e \<notin> set (map eid (filter (\<lambda>e. notebook_id e = n) es))) = (notebook_id e \<noteq> n)"
  proof
    assume "eid e \<notin> set (map eid (filter (\<lambda>e. notebook_id e = n) es))"
    with e show "notebook_id e \<noteq> n" by auto
  next
    assume ne: "notebook_id e \<noteq> n"
    show "eid e \<notin> set (map eid (filter (\<lambda>e. notebook_id e = n) es))"
    proof
      assume "eid e \<in> set (map eid (filter (\<lambda>e. notebook_id e = n) es))"
      then obtain e' where "e' \<in> set es" "notebook_id e' = n" "eid e' = eid e" by auto
      with inj e have "e' = e" by (auto dest: inj_onD)
      with \<open>notebook_id e' = n\<close> ne show False by simp
    qed
  qed
qed

lemma entry_unlink_notebook:
  "filter (\<lambda>e. notebook_id e = n)
     (entries (entry_unlink (map eid (filter (\<lambda>e. notebook_id e = n) (entries d))) d)) = []"
  by (auto simp: entry_unlink_def filter_empty_conv)

text \<open>
  Claim C9. For a notebook that owns at least one entry, in a database whose entries
  have pairwise different identifiers, \<open>unlink\<close> raises the
  \<open>UserError\<close> that points to the button of the cascading delete, and the database
  after the request is the one before it. \<open>action_delete\<close> succeeds: it is the deletion
  of the entries of the notebook followed by the \<open>unlink\<close> of the notebook, and it
  leaves no entry of the notebook and no notebook with this identifier, keeps every
  other entry and notebook, and deletes the versions of the deleted entries.
\<close>

theorem C9_notebook_delete:
  assumes "browse_notebook d n = Some b" and "notebook_entry_ids d n \<noteq> []"
    and "distinct (map eid (entries d))"
  shows "notebook_unlink [n] d =
           Inl (UserError
             ''Cannot delete notebook that still has entries. Use the 'Delete Notebook' button instead.'') \<and>
         after_request d (notebook_unlink [n] d) = d \<and>
         notebook_action_delete [n] d =
           notebook_unlink [n] (entry_unlink (map eid (notebook_entry_ids d n)) d) \<and>
         notebook_action_delete [n] d =
           Inr (d\<lparr>entries := filter (\<lambda>e. notebook_id e \<noteq> n) (entries d),
                  versions := filter (\<lambda>v. entry_id v \<notin> set (map eid (notebook_entry_ids d n)))
                                (versions d),
                  notebooks := filter (\<lambda>b. nid b \<noteq> n) (notebooks d)\<rparr>)"
proof -
  have 1: "notebook_unlink [n] d =
           Inl (UserError
             ''Cannot delete notebook that still has entries. Use the 'Delete Notebook' button instead.'')"
    using assms by (simp add: notebook_unlink_def)
  have 2: "after_request d (notebook_unlink [n] d) = d"
    by (simp add: 1 after_request_def)
  have ids: "notebooks_entry_ids d [n] = notebook_entry_ids d n"
    by (simp add: notebooks_entry_ids_def notebook_entry_ids_def)
  have 3: "notebook_action_delete [n] d =
           notebook_unlink [n] (entry_unlink (map eid (notebook_entry_ids d n)) d)"
    using assms(2) by (simp add: notebook_action_delete_def ids)
  let ?d' = "entry_unlink (map eid (notebook_entry_ids d n)) d"
  have b: "browse_notebook ?d' n = Some b"
    using assms(1) by (simp add: browse_notebook_def entry_unlink_def)
  have e: "notebook_entry_ids ?d' n = []"
    unfolding notebook_entry_ids_def by (rule entry_unlink_notebook)
  note k = keep_other_notebooks [OF assms(3), of n]
  have u: "notebook_unlink [n] ?d' = Inr (orm_notebook_unlink [n] ?d')"
    by (simp add: notebook_unlink_def b e)
  have r: "orm_notebook_unlink [n] ?d' =
      d\<lparr>entries := filter (\<lambda>e. notebook_id e \<noteq> n) (entries d),
        versions := filter (\<lambda>v. entry_id v \<notin> set (map eid (notebook_entry_ids d n)))
                      (versions d),
        notebooks := filter (\<lambda>b. nid b \<noteq> n) (notebooks d)\<rparr>"
    unfolding orm_notebook_unlink_def entry_unlink_def notebook_entry_ids_def k [symmetric]
    by simp
  have 4: "notebook_action_delete [n] d =
           Inr (d\<lparr>entries := filter (\<lambda>e. notebook_id e \<noteq> n) (entries d),
                  versions := filter (\<lambda>v. entry_id v \<notin> set (map eid (notebook_entry_ids d n)))
                                (versions d),
                  notebooks := filter (\<lambda>b. nid b \<noteq> n) (notebooks d)\<rparr>)"
    unfolding 3 u r ..
  show ?thesis
    by (intro conjI) (rule 1, rule 2, rule 3, rule 4)
qed

text \<open>
  The sample notebook with the sample entry: \<open>unlink\<close> is refused, \<open>action_delete\<close>
  leaves an empty database.
\<close>

theorem C9_witness:
  "notebook_unlink [1] notebook_db =
     Inl (UserError
       ''Cannot delete notebook that still has entries. Use the 'Delete Notebook' button instead.'') \<and>
   after_request notebook_db (notebook_unlink [1] notebook_db) = notebook_db \<and>
   notebook_action_delete [1] notebook_db =
     notebook_unlink [1] (entry_unlink (map eid (notebook_entry_ids notebook_db 1)) notebook_db) \<and>
   notebook_action_delete [1] notebook_db =
     Inr (notebook_db\<lparr>entries := [], versions := [], notebooks := []\<rparr>)"
proof -
  have 1: "browse_notebook notebook_db 1 = Some demo_notebook" by code_simp
  have 2: "notebook_entry_ids notebook_db 1 \<noteq> []" by code_simp
  have 3: "distinct (map eid (entries notebook_db))" by code_simp
  have 4: "filter (\<lambda>e. notebook_id e \<noteq> 1) (entries notebook_db) = []" by code_simp
  have 5: "filter (\<lambda>v. entry_id v \<notin> set (map eid (notebook_entry_ids notebook_db 1)))
             (versions notebook_db) = []" by code_simp
  have 6: "filter (\<lambda>b. nid b \<noteq> 1) (notebooks notebook_db) = []" by code_simp
  show ?thesis
    using C9_notebook_delete [OF 1 2 3] unfolding 4 5 6 .
qed

section \<open>Mood aggregator\<close>

lemma get_count_bump: "get_count (bump acc m) k = get_count acc k + (if k = m then 1 else 0)"
  by (induction acc) auto

lemma keys_bump:
  "map fst (bump acc m) = (if m \<in> set (map fst acc) then map fst acc else map fst acc @ [m])"
proof (induction acc)
  case Nil
  show ?case by simp
next
  case (Cons kv acc)
  obtain k c where kv: "kv = (k, c)" by (cases kv)
  show ?case using Cons kv by (cases "k = m") auto
qed

lemma set_keys_bump: "set (map fst (bump acc m)) = insert m (set (map fst acc))"
  by (auto simp: keys_bump)

lemma takeWhile_upto: "m \<notin> set ks \<Longrightarrow> takeWhile (\<lambda>x. x \<noteq> m) (ks @ m # rest) = ks"
  by (induction ks) auto

lemma get_count_count_moods:
  "get_count (count_moods acc es) k = get_count acc k + int (count_list (moods_of es) k)"
  by (induction es arbitrary: acc)
     (auto simp: moods_of_def List.map_filter_simps get_count_bump split: option.splits)

text \<open>The keys of the counts, in the order in which the loop meets them.\<close>

lemma keys_prefix: "\<exists>rest. map fst (count_moods acc es) = map fst acc @ rest"
proof (induction es arbitrary: acc)
  case Nil
  show ?case by simp
next
  case (Cons e es)
  show ?case
  proof (cases "mood e")
    case None
    then show ?thesis using Cons [of acc] by simp
  next
    case (Some m)
    from Cons [of "bump acc m"] obtain rest where
      "map fst (count_moods (bump acc m) es) = map fst (bump acc m) @ rest" by blast
    then show ?thesis using Some by (auto simp: keys_bump)
  qed
qed

lemma set_keys: "set (map fst (count_moods acc es)) = set (map fst acc) \<union> set (moods_of es)"
proof (induction es arbitrary: acc)
  case Nil
  show ?case by (simp add: moods_of_def List.map_filter_simps)
next
  case (Cons e es)
  show ?case
  proof (cases "mood e")
    case None
    then show ?thesis using Cons [of acc] by (simp add: moods_of_def List.map_filter_simps)
  next
    case (Some m)
    have "set (map fst (count_moods (bump acc m) es)) =
        insert m (set (map fst acc)) \<union> set (moods_of es)"
      using Cons [of "bump acc m"] by (simp only: set_keys_bump)
    then show ?thesis using Some by (simp add: moods_of_def List.map_filter_simps)
  qed
qed

lemma keys_before:
  assumes "m \<notin> set (map fst acc)" and "m \<in> set (moods_of es)"
  shows "set (map fst acc) \<union> set (takeWhile (\<lambda>x. x \<noteq> m) (moods_of es))
         \<subseteq> set (takeWhile (\<lambda>x. x \<noteq> m) (map fst (count_moods acc es)))"
  using assms
proof (induction es arbitrary: acc)
  case Nil
  then show ?case by (simp add: moods_of_def)
next
  case (Cons e es)
  show ?case
  proof (cases "mood e")
    case None
    then have "moods_of (e # es) = moods_of es"
      by (simp add: moods_of_def List.map_filter_simps)
    with Cons None show ?thesis by simp
  next
    case (Some x)
    then have ms: "moods_of (e # es) = x # moods_of es"
      by (simp add: moods_of_def List.map_filter_simps)
    show ?thesis
    proof (cases "x = m")
      case True
      from keys_prefix [of "bump acc m" es] obtain rest where
        "map fst (count_moods (bump acc m) es) = map fst (bump acc m) @ rest" by blast
      then have "map fst (count_moods acc (e # es)) = map fst acc @ m # rest"
        using Some True Cons.prems(1) by (simp add: keys_bump)
      then have "takeWhile (\<lambda>x. x \<noteq> m) (map fst (count_moods acc (e # es))) = map fst acc"
        using Cons.prems(1) by (simp add: takeWhile_upto)
      then show ?thesis using ms True by simp
    next
      case False
      have 1: "m \<notin> set (map fst (bump acc x))"
        using False Cons.prems(1) by (auto simp: keys_bump)
      have 2: "m \<in> set (moods_of es)" using Cons.prems(2) ms False by simp
      have c: "count_moods acc (e # es) = count_moods (bump acc x) es"
        using Some by simp
      have a: "set (map fst (bump acc x)) \<union> set (takeWhile (\<lambda>x. x \<noteq> m) (moods_of es))
            \<subseteq> set (takeWhile (\<lambda>x. x \<noteq> m) (map fst (count_moods acc (e # es))))"
        unfolding c by (rule Cons.IH [OF 1 2])
      have b: "set (map fst (bump acc x)) = insert x (set (map fst acc))"
        by (rule set_keys_bump)
      have tw: "set (takeWhile (\<lambda>x. x \<noteq> m) (moods_of (e # es))) =
          insert x (set (takeWhile (\<lambda>x. x \<noteq> m) (moods_of es)))"
        using ms False by simp
      show ?thesis unfolding tw using a b by blast
    qed
  qed
qed

text \<open>\<open>max_by\<close> returns the first element at which the key is greatest.\<close>

lemma max_by_first:
  assumes "\<forall>x\<in>set pre. f x \<le> f b"
    and "\<forall>x\<in>set (takeWhile (\<lambda>x. x \<noteq> b) pre). f x < f b"
    and "b \<in> set pre"
  shows "max_by f b xs \<in> set (pre @ xs) \<and>
         (\<forall>x\<in>set (pre @ xs). f x \<le> f (max_by f b xs)) \<and>
         (\<forall>x\<in>set (takeWhile (\<lambda>x. x \<noteq> max_by f b xs) (pre @ xs)). f x < f (max_by f b xs))"
  using assms
proof (induction xs arbitrary: pre b)
  case Nil
  then show ?case by simp
next
  case (Cons x xs)
  let ?b = "if f b < f x then x else b"
  have 1: "\<forall>y\<in>set (pre @ [x]). f y \<le> f ?b"
    using Cons.prems(1) by (auto simp: less_imp_le order_trans not_less)
  have 2: "\<forall>y\<in>set (takeWhile (\<lambda>y. y \<noteq> ?b) (pre @ [x])). f y < f ?b"
  proof (cases "f b < f x")
    case True
    then have "x \<notin> set pre" using Cons.prems(1) by auto
    then have "takeWhile (\<lambda>y. y \<noteq> x) (pre @ [x]) = pre"
      by (rule takeWhile_upto)
    then show ?thesis using True Cons.prems(1) by auto
  next
    case False
    have "takeWhile (\<lambda>y. y \<noteq> b) (pre @ [x]) = takeWhile (\<lambda>y. y \<noteq> b) pre"
      using Cons.prems(3) by (simp add: takeWhile_append1)
    then show ?thesis using False Cons.prems(2) by simp
  qed
  have 3: "?b \<in> set (pre @ [x])" using Cons.prems(3) by simp
  from Cons.IH [OF 1 2 3] show ?case by simp
qed


lemma set_insert_entry: "set (insert_entry x xs) = insert x (set xs)"
  by (induction xs) auto

lemma set_sorted: "set (foldr insert_entry xs []) = set xs"
  by (induction xs) (auto simp: set_insert_entry)

lemma set_search: "set (search domain d) = {e \<in> set (entries d). domain e}"
  by (simp add: search_def set_sorted)

lemma moods_of_nonempty:
  assumes "es \<noteq> []" and "\<forall>e\<in>set es. mood e \<noteq> None"
  shows "moods_of es \<noteq> []"
proof -
  from assms(1) obtain e es' where es: "es = e # es'" by (cases es) auto
  with assms(2) obtain m where "mood e = Some m" by auto
  then show ?thesis by (simp add: es moods_of_def List.map_filter_simps)
qed

text \<open>
  Claim C8. When no entry of the user has a mood, \<open>get_mood_statistics\<close> returns, for
  every period, the dictionary with \<open>total_entries = 0\<close>, empty \<open>mood_counts\<close>,
  \<open>mood_percentages\<close>, \<open>mood_trends\<close> and \<open>notebook_breakdown\<close> and \<open>most_common_mood\<close>
  \<open>None\<close>. The function has no error among its results: it is total.
\<close>

theorem C8_no_mood_entries:
  assumes "\<forall>e\<in>set (entries d). user_id e = acting_user env user_arg \<longrightarrow> mood e = None"
  shows "get_mood_statistics env user_arg p d =
           \<lparr>total_entries = 0, mood_counts = [], mood_percentages = [],
            most_common_mood = None, mood_trends = Map.empty, notebook_breakdown = [],
            period = None\<rparr>"
proof -
  have "mood_entries env user_arg p d = []"
    using assms by (auto simp: mood_entries_def filter_empty_conv set_search)
  then show ?thesis by (simp add: get_mood_statistics_def)
qed

text \<open>The sample entry has no mood, and its author has no other entry.\<close>

theorem C8_witness:
  "get_mood_statistics demo_env None ''month'' notebook_db =
     \<lparr>total_entries = 0, mood_counts = [], mood_percentages = [],
      most_common_mood = None, mood_trends = Map.empty, notebook_breakdown = [],
      period = None\<rparr>"
proof -
  have "\<forall>e\<in>set (entries notebook_db). user_id e = acting_user demo_env None \<longrightarrow> mood e = None"
    by code_simp
  then show ?thesis by (rule C8_no_mood_entries)
qed

text \<open>
  Claim C6. When the user has an entry with a mood in the period, \<open>most_common_mood\<close>
  is a mood \<open>m\<close> of those entries that no mood exceeds in the number of entries, and no
  mood with as many entries is met before \<open>m\<close> in the order in which the entries are
  counted.
\<close>

theorem C6_most_common_mood:
  assumes "mood_entries env user_arg p d \<noteq> []"
  shows "\<exists>m. most_common_mood (get_mood_statistics env user_arg p d) = Some m \<and>
           m \<in> set (moods_of (mood_entries env user_arg p d)) \<and>
           (\<forall>m'. count_list (moods_of (mood_entries env user_arg p d)) m'
                 \<le> count_list (moods_of (mood_entries env user_arg p d)) m) \<and>
           (\<forall>m'. count_list (moods_of (mood_entries env user_arg p d)) m' =
                   count_list (moods_of (mood_entries env user_arg p d)) m \<longrightarrow>
                 m' \<notin> set (takeWhile (\<lambda>x. x \<noteq> m) (moods_of (mood_entries env user_arg p d))))"
proof -
  define es where "es = mood_entries env user_arg p d"
  define ms where "ms = moods_of es"
  define cs where "cs = count_moods [] es"
  have "\<forall>e\<in>set es. mood e \<noteq> None" by (simp add: es_def mood_entries_def)
  with assms have "ms \<noteq> []" unfolding ms_def es_def by (rule moods_of_nonempty)
  have keys: "set (map fst cs) = set ms"
    using set_keys [of "[]" es] by (simp add: cs_def ms_def)
  with \<open>ms \<noteq> []\<close> obtain k ks where k: "map fst cs = k # ks"
    by (cases "map fst cs") auto
  have keys': "set (k # ks) = set ms" using keys k by simp
  define m where "m = max_by (get_count cs) k ks"
  have f: "get_count cs x = int (count_list ms x)" for x
    using get_count_count_moods [of "[]" es x] by (simp add: cs_def ms_def)
  have "\<forall>x\<in>set [k]. get_count cs x \<le> get_count cs k"
    "\<forall>x\<in>set (takeWhile (\<lambda>x. x \<noteq> k) [k]). get_count cs x < get_count cs k"
    "k \<in> set [k]" by simp_all
  from max_by_first [OF this, of ks]
  have mx: "m \<in> set (k # ks)" "\<forall>x\<in>set (k # ks). get_count cs x \<le> get_count cs m"
    "\<forall>x\<in>set (takeWhile (\<lambda>x. x \<noteq> m) (k # ks)). get_count cs x < get_count cs m"
    by (simp_all add: m_def)
  have 1: "most_common_mood (get_mood_statistics env user_arg p d) = Some m"
    using assms k by (simp add: get_mood_statistics_def Let_def es_def [symmetric]
        cs_def [symmetric] m_def)
  have 2: "m \<in> set ms" using mx(1) keys' by blast
  have 3: "count_list ms m' \<le> count_list ms m" for m'
  proof (cases "m' \<in> set ms")
    case True
    then have "get_count cs m' \<le> get_count cs m" using mx(2) keys' by blast
    then show ?thesis by (simp add: f)
  next
    case False
    then show ?thesis by (simp add: count_list_0_iff)
  qed
  have 4: "m' \<notin> set (takeWhile (\<lambda>x. x \<noteq> m) ms)" if "count_list ms m' = count_list ms m" for m'
  proof
    assume "m' \<in> set (takeWhile (\<lambda>x. x \<noteq> m) ms)"
    moreover have "set (takeWhile (\<lambda>x. x \<noteq> m) ms)
        \<subseteq> set (takeWhile (\<lambda>x. x \<noteq> m) (map fst cs))"
      using keys_before [of m "[]" es] 2 by (simp add: ms_def cs_def)
    ultimately have "get_count cs m' < get_count cs m" using mx(3) k by auto
    with that show False by (simp add: f)
  qed
  show ?thesis
    unfolding es_def [symmetric] ms_def [symmetric] using 1 2 3 4 by blast
qed

text \<open>
  The sample user this year: the entries are counted from the latest, sad, happy,
  tired, one of each, and the most common mood is the first of them.
\<close>

theorem C6_witness:
  "moods_of (mood_entries demo_env (Some 7) ''year'' mood_db) = [sad, happy, tired] \<and>
   (\<exists>m. most_common_mood (get_mood_statistics demo_env (Some 7) ''year'' mood_db) = Some m \<and>
      m \<in> set [sad, happy, tired] \<and>
      (\<forall>m'. count_list [sad, happy, tired] m' \<le> count_list [sad, happy, tired] m) \<and>
      (\<forall>m'. count_list [sad, happy, tired] m' = count_list [sad, happy, tired] m \<longrightarrow>
            m' \<notin> set (takeWhile (\<lambda>x. x \<noteq> m) [sad, happy, tired])))"
proof -
  have ms: "moods_of (mood_entries demo_env (Some 7) ''year'' mood_db) = [sad, happy, tired]"
    by code_simp
  then have "mood_entries demo_env (Some 7) ''year'' mood_db \<noteq> []"
    by (auto simp: moods_of_def List.map_filter_simps)
  from C6_most_common_mood [OF this] show ?thesis unfolding ms by simp
qed

text \<open>
  Rounding to a double keeps the sign: the nearest double of a number other than 0 is
  not 0, since the exponent range is not bounded here.
\<close>

lemma exponent_lower:
  assumes "x \<noteq> 0"
  shows "2 powi exponent x \<le> \<bar>x\<bar>"
proof -
  obtain p q where pq: "quotient_of \<bar>x\<bar> = (p, q)" by (cases "quotient_of \<bar>x\<bar>")
  then have q: "0 < q" by (rule quotient_of_denom_pos)
  have x: "\<bar>x\<bar> = of_int p / of_int q" using pq by (rule quotient_of_div)
  have "0 < \<bar>x\<bar>" using assms by simp
  then have p: "0 < p" unfolding x using q by (simp add: zero_less_divide_iff)
  let ?k = "bitlen p - bitlen q"
  have e: "exponent x = (if 2 powi ?k \<le> \<bar>x\<bar> then ?k else ?k - 1)"
    by (simp add: exponent_def pq Let_def)
  show ?thesis
  proof (cases "2 powi ?k \<le> \<bar>x\<bar>")
    case True
    then show ?thesis by (simp add: e)
  next
    case False
    have bp: "0 < bitlen p" using p by (simp add: bitlen_eq_zero_iff order_less_le bitlen_nonneg)
    have bq: "0 < bitlen q" using q by (simp add: bitlen_eq_zero_iff order_less_le bitlen_nonneg)
    from bitlen_bounds [OF p] have 1: "(2 :: rat) ^ nat (bitlen p - 1) \<le> of_int p"
      by (metis of_int_le_iff of_int_numeral of_int_power)
    from bitlen_bounds [OF q] have 2: "of_int q \<le> (2 :: rat) ^ nat (bitlen q)"
      by (metis less_imp_le of_int_le_iff of_int_numeral of_int_power)
    have k: "?k - 1 = (bitlen p - 1) - bitlen q" by simp
    have "(2 :: rat) powi (?k - 1) = 2 powi (bitlen p - 1) / 2 powi bitlen q"
      unfolding k by (rule power_int_diff) simp
    also have "\<dots> = 2 ^ nat (bitlen p - 1) / 2 ^ nat (bitlen q)"
      using bp bq by (simp add: power_int_def)
    also have "\<dots> \<le> of_int p / of_int q"
      using 1 2 q p by (intro frac_le) simp_all
    finally show ?thesis using False by (simp add: e x)
  qed
qed

lemma round_half_even_of_int: "round_half_even (of_int z) = z"
  by (simp add: round_half_even_def)

lemma round_half_even_pos: "1 \<le> y \<Longrightarrow> 1 \<le> round_half_even y"
proof -
  assume "1 \<le> y"
  then have "1 \<le> \<lfloor>y\<rfloor>" by simp
  then show ?thesis by (simp add: round_half_even_def Let_def)
qed

lemma round_half_even_neg: "y \<le> - 1 \<Longrightarrow> round_half_even y \<le> - 1"
proof -
  assume y: "y \<le> - 1"
  then have f: "\<lfloor>y\<rfloor> \<le> - 1" by (simp add: floor_le_iff)
  show ?thesis
  proof (cases "\<lfloor>y\<rfloor> = - 1")
    case True
    then have "- 1 \<le> y" by (metis of_int_floor_le of_int_minus of_int_1)
    with y have "y = of_int (- 1)" by simp
    then show ?thesis by (simp only: round_half_even_of_int)
  next
    case False
    with f have "\<lfloor>y\<rfloor> + 1 \<le> - 1" by simp
    then show ?thesis using f by (simp add: round_half_even_def Let_def)
  qed
qed

lemma fl_sign: "(0 < fl x) = (0 < x) \<and> (fl x < 0) = (x < 0)"
proof (cases "x = 0")
  case True
  then show ?thesis by (simp add: fl_def)
next
  case False
  let ?u = "(2 :: rat) powi (exponent x - 52)"
  have u: "0 < ?u" by simp
  have f: "fl x = of_int (round_half_even (x / ?u)) * ?u" using False by (simp add: fl_def Let_def)
  have "(2 :: rat) powi exponent x = 2 powi 52 * ?u"
    by (simp add: power_int_diff)
  then have big: "2 powi 52 * ?u \<le> \<bar>x\<bar>" using exponent_lower [OF False] by simp
  have one: "(1 :: rat) \<le> 2 powi 52" by simp
  show ?thesis
  proof (cases "0 < x")
    case True
    then have "2 powi 52 * ?u \<le> x" using big by simp
    then have "2 powi 52 \<le> x / ?u" using u by (simp add: pos_le_divide_eq)
    then have "1 \<le> x / ?u" using one by linarith
    then have "1 \<le> round_half_even (x / ?u)" by (rule round_half_even_pos)
    then have "0 < fl x" unfolding f using u by (simp add: zero_less_mult_iff)
    then show ?thesis using True by simp
  next
    case nonpos: False
    with False have neg: "x < 0" by simp
    then have "2 powi 52 * ?u \<le> - x" using big by simp
    then have "2 powi 52 \<le> (- x) / ?u" using pos_le_divide_eq [OF u] by blast
    moreover have "(- x) / ?u = - (x / ?u)" by simp
    ultimately have "x / ?u \<le> - 1" using one by linarith
    then have "round_half_even (x / ?u) \<le> - 1" by (rule round_half_even_neg)
    then have "fl x < 0" unfolding f using u by (simp add: mult_less_0_iff)
    then show ?thesis using neg by simp
  qed
qed

lemma trend_value_sign:
  assumes "0 \<le> recent" and "0 \<le> previous"
  shows "positive (trend_value recent previous) = (previous < recent)"
    and "negative (trend_value recent previous) = (recent < previous)"
proof -
  show "positive (trend_value recent previous) = (previous < recent)"
  proof (cases "previous = 0")
    case True
    then show ?thesis by (simp add: trend_value_def)
  next
    case False
    with assms have p: "0 < previous" by simp
    have "positive (trend_value recent previous) =
        (0 < (of_int (recent - previous) / of_int previous :: rat))"
      using False fl_sign by (simp add: trend_value_def times_100_def true_divide_def
          zero_less_mult_iff)
    then show ?thesis using p by (simp add: zero_less_divide_iff)
  qed
  show "negative (trend_value recent previous) = (recent < previous)"
  proof (cases "previous = 0")
    case True
    then show ?thesis using assms by (simp add: trend_value_def)
  next
    case False
    with assms have p: "0 < previous" by simp
    have "negative (trend_value recent previous) =
        ((of_int (recent - previous) / of_int previous :: rat) < 0)"
      using False fl_sign by (simp add: trend_value_def times_100_def true_divide_def
          mult_less_0_iff)
    then show ?thesis using p by (simp add: divide_less_0_iff)
  qed
qed

lemma get_count_nonneg: "0 \<le> get_count (count_moods [] es) m"
  by (simp add: get_count_count_moods)

text \<open>
  Claim C7, as the code has it. For every mood of the trend computation: the reported
  \<open>trend_percentage\<close> is the value of \<open>trend\<close> rounded to two decimals; when the count
  of the previous window is zero it is the integer 100 if the recent count is positive
  and the integer 0 otherwise; and \<open>trend_direction\<close> follows the sign of \<open>trend\<close> before
  it is rounded, which is the sign of the difference of the two counts: \<open>up\<close> when it is
  positive, \<open>down\<close> when negative, \<open>stable\<close> when zero.
\<close>

theorem C7_trend_direction:
  assumes "calculate_mood_trends env u d m = Some t"
  shows "trend_percentage t = round_number (trend_value (recent_count t) (previous_count t)) \<and>
         (previous_count t = 0 \<longrightarrow>
            trend_percentage t = PyInt (if 0 < recent_count t then 100 else 0)) \<and>
         trend_direction t =
           (if positive (trend_value (recent_count t) (previous_count t)) then up
            else if negative (trend_value (recent_count t) (previous_count t)) then down
            else stable) \<and>
         trend_direction t =
           (if previous_count t < recent_count t then up
            else if recent_count t < previous_count t then down else stable)"
proof -
  from assms obtain rs ps where t: "t = mood_trend (get_count (count_moods [] rs) m)
      (get_count (count_moods [] ps) m)"
    by (auto simp: calculate_mood_trends_def Let_def split: if_splits)
  let ?r = "get_count (count_moods [] rs) m" and ?p = "get_count (count_moods [] ps) m"
  have r: "recent_count t = ?r" and p: "previous_count t = ?p"
    by (simp_all add: t mood_trend_def)
  have nn: "0 \<le> ?r" "0 \<le> ?p" by (rule get_count_nonneg)+
  have 1: "trend_percentage t = round_number (trend_value (recent_count t) (previous_count t))"
    by (simp add: t mood_trend_def)
  have 2: "previous_count t = 0 \<longrightarrow>
      trend_percentage t = PyInt (if 0 < recent_count t then 100 else 0)"
    by (simp add: 1 trend_value_def)
  have 3: "trend_direction t =
      (if positive (trend_value (recent_count t) (previous_count t)) then up
       else if negative (trend_value (recent_count t) (previous_count t)) then down
       else stable)"
    by (simp add: t mood_trend_def)
  have 4: "trend_direction t =
      (if previous_count t < recent_count t then up
       else if recent_count t < previous_count t then down else stable)"
    unfolding 3 r p by (simp only: trend_value_sign [OF nn])
  show ?thesis using 1 2 3 4 by blast
qed

text \<open>The happy entries of the sample user: one in the last week, none in the week before.\<close>

theorem C7_witness:
  "calculate_mood_trends demo_env 7 mood_db happy =
     Some \<lparr>recent_count = 1, previous_count = 0, trend_percentage = PyInt 100,
           trend_direction = up\<rparr> \<and>
   PyInt 100 = round_number (trend_value 1 0) \<and>
   up = (if positive (trend_value 1 0) then up
         else if negative (trend_value 1 0) then down else stable)"
proof -
  have t: "calculate_mood_trends demo_env 7 mood_db happy =
     Some \<lparr>recent_count = 1, previous_count = 0, trend_percentage = PyInt 100,
           trend_direction = up\<rparr>"
    by code_simp
  note c = C7_trend_direction [OF t, unfolded trend.select_convs]
  from c have a: "PyInt 100 = round_number (trend_value 1 0)" by (rule conjunct1)
  from c have b: "up = (if positive (trend_value 1 0) then up
      else if negative (trend_value 1 0) then down else stable)"
    by (rule conjunct2 [THEN conjunct2, THEN conjunct1])
  show ?thesis using t a b by (intro conjI)
qed

text \<open>Entries that agree on both keys of the order keep their places.\<close>

lemma search_order_same:
  assumes "\<forall>x\<in>set xs. \<forall>y\<in>set xs. comes_first x y"
  shows "foldr insert_entry xs [] = xs"
  using assms
proof (induction xs)
  case Nil
  show ?case by simp
next
  case (Cons x xs)
  then have "foldr insert_entry xs [] = xs" by simp
  then show ?case using Cons.prems by (cases xs) auto
qed

lemma moods_of_same: "moods_of (map (\<lambda>i. mood_entry i dy m) xs) = replicate (length xs) m"
  by (induction xs) (simp_all add: moods_of_def List.map_filter_simps mood_entry_def)

lemma count_list_replicate: "count_list (replicate n x) x = n"
  by (induction n) simp_all

lemma busy_trends:
  assumes "xs \<noteq> []"
  shows "calculate_mood_trends demo_env 7
           (notebook_db\<lparr>entries := map (\<lambda>i. mood_entry i 20 happy) xs @
                                   map (\<lambda>i. mood_entry i 10 happy) ys,
                        entry_seq := n\<rparr>) happy =
         Some (mood_trend (int (length xs)) (int (length ys)))"
proof -
  let ?f = "\<lambda>i. mood_entry i 20 happy" and ?g = "\<lambda>i. mood_entry i 10 happy"
  let ?d = "notebook_db\<lparr>entries := map ?f xs @ map ?g ys, entry_seq := n\<rparr>"
  let ?recent = "\<lambda>e. user_id e = 7 \<and> mood e \<noteq> None \<and>
      date_le (minus_days (on_date (now demo_env)) 7) (entry_date e) \<and>
      date_le (entry_date e) (on_date (now demo_env))"
  let ?previous = "\<lambda>e. user_id e = 7 \<and> mood e \<noteq> None \<and>
      date_le (minus_days (minus_days (on_date (now demo_env)) 7) 7) (entry_date e) \<and>
      date_less (entry_date e) (minus_days (on_date (now demo_env)) 7)"
  have d7: "minus_days \<lparr>year = 2024, month = 5, day = 20\<rparr> 7 = \<lparr>year = 2024, month = 5, day = 13\<rparr>"
    by code_simp
  have d14: "minus_days \<lparr>year = 2024, month = 5, day = 13\<rparr> 7 = \<lparr>year = 2024, month = 5, day = 6\<rparr>"
    by code_simp
  have today: "on_date (now demo_env) = \<lparr>year = 2024, month = 5, day = 20\<rparr>"
    by (simp add: demo_env_def demo_now_def)
  have rf: "?recent (?f i)" and rg: "\<not> ?recent (?g i)"
    and pf: "\<not> ?previous (?f i)" and pg: "?previous (?g i)" for i
    unfolding today d7 d14
    by (simp_all add: mood_entry_def demo_entry_def date_le_def date_less_def)
  have fr: "filter ?recent (entries ?d) = map ?f xs"
    using rf rg by (simp add: filter_map o_def)
  have fp: "filter ?previous (entries ?d) = map ?g ys"
    using pf pg by (simp add: filter_map o_def)
  have cf: "comes_first (mood_entry i dy m) (mood_entry j dy m)" for i j dy m
    by (simp add: comes_first_def mood_entry_def datetime_le_def)
  have sr: "search ?recent ?d = map ?f xs"
    unfolding search_def fr by (rule search_order_same) (auto simp: cf)
  have sp: "search ?previous ?d = map ?g ys"
    unfolding search_def fp by (rule search_order_same) (auto simp: cf)
  have cr: "get_count (count_moods [] (map ?f xs)) happy = int (length xs)"
    by (simp add: get_count_count_moods moods_of_same count_list_replicate)
  have cp: "get_count (count_moods [] (map ?g ys)) happy = int (length ys)"
    by (simp add: get_count_count_moods moods_of_same count_list_replicate)
  have k: "happy \<in> set (map fst (count_moods [] (map ?f xs)) @
                        map fst (count_moods [] (map ?g ys)))"
    using set_keys [of "[]" "map ?f xs"] assms by (simp add: moods_of_same)
  have "calculate_mood_trends demo_env 7 ?d happy =
      Some (mood_trend (get_count (count_moods [] (map ?f xs)) happy)
             (get_count (count_moods [] (map ?g ys)) happy))"
    unfolding calculate_mood_trends_def Let_def sr sp using k by simp
  then show ?thesis unfolding cr cp .
qed

text \<open>
  Claim C7 as stated fails where the counts are large. With 20002 happy entries in the
  recent window and 20001 in the previous one, \<open>trend\<close> is the double nearest to
  \<open>100 / 20001\<close>, below 0.005: the reported \<open>trend_percentage\<close> is the float zero and the
  direction is \<open>up\<close>, not \<open>stable\<close>.
\<close>

theorem C7_counterexample:
  "calculate_mood_trends demo_env 7 busy_db happy =
     Some \<lparr>recent_count = 20002, previous_count = 20001, trend_percentage = PyFloat 0,
           trend_direction = up\<rparr>"
proof -
  have n: "[1..<20003] \<noteq> []" by (simp only: upt_eq_Nil_conv) simp
  have l: "int (length [1..<20003]) = 20002" "int (length [20003..<40004]) = 20001"
    by (simp_all only: length_upt)
  have v: "mood_trend 20002 20001 =
      \<lparr>recent_count = 20002, previous_count = 20001, trend_percentage = PyFloat 0,
       trend_direction = up\<rparr>"
    by code_simp
  show ?thesis
    unfolding busy_db_def busy_trends [OF n] l v ..
qed

section \<open>Export formatter\<close>

lemma sublist_in_right: "sublist xs ys \<Longrightarrow> sublist xs (ps @ ys)"
  by (auto simp: sublist_def) (metis append.assoc)

lemma sublist_in_left: "sublist xs ys \<Longrightarrow> sublist xs (ys @ ss)"
proof -
  assume "sublist xs ys"
  then obtain ps ss' where "ys = ps @ xs @ ss'" by (auto simp: sublist_def)
  then have "ys @ ss = ps @ xs @ (ss' @ ss)" by simp
  then show ?thesis unfolding sublist_def by blast
qed

lemma unlines_append: "unlines (xs @ ys) = unlines xs @ unlines ys"
  by (simp add: unlines_def)

lemma sublist_unlines: "sublist (unlines xs) (unlines (ps @ xs @ ss))"
  by (simp add: unlines_append)

lemma markdown_version_line:
  "sublist (unlines [''- **Version:** '' @ str_int (current_version self - 1)])
     (markdown_text env d self s)"
  unfolding markdown_text_def
  by (rule sublist_in_right, rule sublist_in_right, rule sublist_in_right,
      rule sublist_in_right, rule sublist_in_right, rule sublist_in_right,
      rule sublist_in_right, rule sublist_in_right, rule sublist_in_right,
      rule sublist_in_right, rule sublist_append_rightI)

lemma pdf_version_row:
  \<open>sublist
     (unlines [''            <span class="metadata-label">Version:</span>'',
               ''            <span class="metadata-value">'' @
                 str_int (current_version self - 1) @ ''</span>''])
     (pdf_text env d self s)\<close>
proof -
  have \<open>sublist
     (unlines [''            <span class="metadata-label">Version:</span>'',
               ''            <span class="metadata-value">'' @
                 str_int (current_version self - 1) @ ''</span>''])
     (pdf_tail env self s)\<close>
    unfolding pdf_tail_def
    by (rule sublist_in_left) (rule sublist_unlines [where ps = "[_,_,_,_,_,_,_,_,_,_,_,_,_,_,_,_,_]" and xs = "[_,_]", simplified])
  then show ?thesis
    unfolding pdf_text_def
    by (intro sublist_in_right)
qed

lemma str_int_0: "str_int 0 = ''0''"
  by code_simp

text \<open>
  Claim C10. Both exporters call \<open>self.state.title()\<close> before the line of the version,
  so they return a text exactly when the state of the entry is set, and raise the
  \<open>AttributeError\<close> when it is \<open>False\<close>. When they return, the Markdown export holds the
  line \<open>- **Version:** n\<close> and the HTML for the PDF holds the metadata row with the label
  \<open>Version:\<close> and the value \<open>n\<close>, where \<open>n\<close> is the version counter of the entry minus 1;
  for an entry whose counter is still 1 both show the version 0.
\<close>

theorem C10_export_version:
  \<open>(state self \<noteq> None \<longrightarrow>
      (\<exists>markdown html.
         generate_markdown_content env d self = Inr markdown \<and>
         generate_pdf_html_content env d self = Inr html \<and>
         sublist (unlines [''- **Version:** '' @ str_int (current_version self - 1)]) markdown \<and>
         sublist
           (unlines [''            <span class="metadata-label">Version:</span>'',
                     ''            <span class="metadata-value">'' @
                       str_int (current_version self - 1) @ ''</span>''])
           html \<and>
         (current_version self = 1 \<longrightarrow>
            sublist (unlines [''- **Version:** 0'']) markdown \<and>
            sublist
              (unlines [''            <span class="metadata-label">Version:</span>'',
                        ''            <span class="metadata-value">0</span>''])
              html))) \<and>
   (state self = None \<longrightarrow>
      generate_markdown_content env d self = Inl (AttributeError no_title) \<and>
      generate_pdf_html_content env d self = Inl (AttributeError no_title))\<close>
proof (intro conjI impI)
  assume "state self \<noteq> None"
  then obtain s where s: "state self = Some s" by auto
  have 1: "generate_markdown_content env d self = Inr (markdown_text env d self s)"
    by (simp add: generate_markdown_content_def s)
  have 2: "generate_pdf_html_content env d self = Inr (pdf_text env d self s)"
    by (simp add: generate_pdf_html_content_def s)
  show \<open>\<exists>markdown html.
         generate_markdown_content env d self = Inr markdown \<and>
         generate_pdf_html_content env d self = Inr html \<and>
         sublist (unlines [''- **Version:** '' @ str_int (current_version self - 1)]) markdown \<and>
         sublist
           (unlines [''            <span class="metadata-label">Version:</span>'',
                     ''            <span class="metadata-value">'' @
                       str_int (current_version self - 1) @ ''</span>''])
           html \<and>
         (current_version self = 1 \<longrightarrow>
            sublist (unlines [''- **Version:** 0'']) markdown \<and>
            sublist
              (unlines [''            <span class="metadata-label">Version:</span>'',
                        ''            <span class="metadata-value">0</span>''])
              html)\<close>
    using 1 2 markdown_version_line [of self env d s] pdf_version_row [of self env d s]
    by (auto simp: str_int_0)
next
  assume "state self = None"
  then show "generate_markdown_content env d self = Inl (AttributeError no_title)"
    by (simp add: generate_markdown_content_def)
next
  assume "state self = None"
  then show "generate_pdf_html_content env d self = Inl (AttributeError no_title)"
    by (simp add: generate_pdf_html_content_def)
qed

text \<open>The sample entry, a draft never edited.\<close>

theorem C10_witness:
  \<open>state demo_entry \<noteq> None \<and> current_version demo_entry = 1 \<and>
   (\<exists>markdown html.
      generate_markdown_content demo_env notebook_db demo_entry = Inr markdown \<and>
      generate_pdf_html_content demo_env notebook_db demo_entry = Inr html \<and>
      sublist (unlines [''- **Version:** 0'']) markdown \<and>
      sublist
        (unlines [''            <span class="metadata-label">Version:</span>'',
                  ''            <span class="metadata-value">0</span>''])
        html)\<close>
proof -
  have 1: "current_version demo_entry = 1" by (simp add: demo_entry_def)
  have 2: "state demo_entry \<noteq> None" by (simp add: demo_entry_def)
  from C10_export_version [of demo_entry demo_env notebook_db] 1 2
  show ?thesis by blast
qed

section \<open>The library difflib\<close>

text \<open>
  A match that \<open>find_longest_match\<close> returns with a length other than 0 lies inside the
  two ranges, so the loop of \<open>get_matching_blocks\<close> ends.
\<close>

lemma row_inside:
  assumes "alo \<le> i" and "i < ahi" and "lens_ok (i - alo) blo j2len"
    and "inside alo ahi blo bhi best" and "lens_ok (i + 1 - alo) blo new"
  shows "lens_ok (i + 1 - alo) blo (fst (row i blo bhi j2len js (new, best))) \<and>
         inside alo ahi blo bhi (snd (row i blo bhi j2len js (new, best)))"
  using assms(4,5)
proof (induction js arbitrary: new best)
  case Nil
  then show ?case by simp
next
  case (Cons j js)
  obtain besti bestj bestsize where b: "best = (besti, bestj, bestsize)" by (cases best)
  show ?case
  proof (cases "j < blo")
    case True
    then show ?thesis using Cons.IH [OF Cons.prems] by (simp add: b)
  next
    case False
    note lo = this
    show ?thesis
    proof (cases "bhi \<le> j")
      case True
      with lo Cons.prems show ?thesis by (simp add: b)
    next
      case False
      define k where "k = (if j = 0 then 0 else j2len (j - 1)) + 1"
      have "j2len (j - 1) \<le> i - alo" using assms(3) by (simp add: lens_ok_def)
      then have k1: "k \<le> i + 1 - alo" using assms(1) by (auto simp: k_def)
      have k2: "k \<le> j + 1 - blo"
      proof (cases "j = 0")
        case True
        with lo show ?thesis by (simp add: k_def)
      next
        case False
        from assms(3) have "j2len (j - 1) \<le> j - 1 + 1 - blo" unfolding lens_ok_def by blast
        with False lo show ?thesis by (simp add: k_def)
      qed
      have k0: "0 < k" by (simp add: k_def)
      let ?best = "if bestsize < k then (i + 1 - k, j + 1 - k, k) else (besti, bestj, bestsize)"
      have r: "row i blo bhi j2len (j # js) (new, best) =
          row i blo bhi j2len js (new(j := k), ?best)"
        using lo False by (simp add: b k_def Let_def)
      have 1: "inside alo ahi blo bhi ?best"
      proof (cases "bestsize < k")
        case True
        with k0 k1 k2 assms(1,2) lo False show ?thesis by (auto simp: inside_def)
      next
        case False
        with Cons.prems(1) show ?thesis by (simp add: b)
      qed
      have 2: "lens_ok (i + 1 - alo) blo (new(j := k))"
        using Cons.prems(2) k1 k2 by (simp add: lens_ok_def)
      show ?thesis unfolding r by (rule Cons.IH [OF 1 2])
    qed
  qed
qed

lemma rows_inside:
  assumes "alo \<le> m" and "lens_ok (m - alo) blo j2len" and "inside alo ahi blo bhi best"
  shows "inside alo ahi blo bhi (snd (rows a b blo bhi [m..<ahi] (j2len, best)))"
  using assms
proof (induction "ahi - m" arbitrary: m j2len best)
  case 0
  then show ?case by simp
next
  case (Suc n)
  then have m: "m < ahi" by simp
  then have u: "[m..<ahi] = m # [Suc m..<ahi]" by (rule upt_conv_Cons)
  let ?r = "row m blo bhi j2len (b2j b (a ! m)) (\<lambda>j. 0, best)"
  have z: "lens_ok (m + 1 - alo) blo (\<lambda>j. 0)" by (simp add: lens_ok_def)
  from row_inside [OF Suc.prems(1) m Suc.prems(2,3) z]
  have i1: "lens_ok (Suc m - alo) blo (fst ?r)" and i2: "inside alo ahi blo bhi (snd ?r)"
    by simp_all
  have n: "n = ahi - Suc m" using Suc.hyps(2) by simp
  have le: "alo \<le> Suc m" using Suc.prems(1) by simp
  have "rows a b blo bhi [m..<ahi] (j2len, best) =
      rows a b blo bhi [Suc m..<ahi] (fst ?r, snd ?r)"
    unfolding u by simp
  then show ?case using Suc.hyps(1) [OF n le i1 i2] by simp
qed

lemma extend_left_inside:
  assumes "inside alo ahi blo bhi (besti, bestj, bestsize)"
  shows "inside alo ahi blo bhi (extend_left a b alo blo (besti, bestj, bestsize))"
  using assms
proof (induction besti arbitrary: bestj bestsize)
  case 0
  then show ?case by (simp add: extend_left.simps)
next
  case (Suc n)
  show ?case
  proof (cases "alo < Suc n \<and> blo < bestj \<and> a ! (Suc n - 1) = b ! (bestj - 1)")
    case True
    then have e: "extend_left a b alo blo (Suc n, bestj, bestsize) =
        extend_left a b alo blo (n, bestj - 1, bestsize + 1)"
      by (subst extend_left.simps) simp
    have "inside alo ahi blo bhi (n, bestj - 1, bestsize + 1)"
      using True Suc.prems by (auto simp: inside_def split: if_splits)
    from Suc.IH [OF this] show ?thesis unfolding e .
  next
    case False
    then have "extend_left a b alo blo (Suc n, bestj, bestsize) = (Suc n, bestj, bestsize)"
      by (subst extend_left.simps) auto
    with Suc.prems show ?thesis by simp
  qed
qed

lemma extend_right_inside:
  assumes "inside alo ahi blo bhi (besti, bestj, bestsize)"
  shows "inside alo ahi blo bhi (extend_right a b ahi bhi (besti, bestj, bestsize))"
  using assms
proof (induction "ahi - (besti + bestsize)" arbitrary: bestsize)
  case 0
  then have "extend_right a b ahi bhi (besti, bestj, bestsize) = (besti, bestj, bestsize)"
    by (subst extend_right.simps) auto
  with "0.prems" show ?case by simp
next
  case (Suc n)
  show ?case
  proof (cases "besti + bestsize < ahi \<and> bestj + bestsize < bhi \<and>
         a ! (besti + bestsize) = b ! (bestj + bestsize)")
    case True
    then have e: "extend_right a b ahi bhi (besti, bestj, bestsize) =
        extend_right a b ahi bhi (besti, bestj, bestsize + 1)"
      by (subst extend_right.simps) simp
    have i: "inside alo ahi blo bhi (besti, bestj, bestsize + 1)"
      using True Suc.prems by (auto simp: inside_def split: if_splits)
    have n: "n = ahi - (besti + (bestsize + 1))" using Suc.hyps(2) by simp
    from Suc.hyps(1) [OF n i] show ?thesis unfolding e .
  next
    case False
    then have "extend_right a b ahi bhi (besti, bestj, bestsize) = (besti, bestj, bestsize)"
      by (subst extend_right.simps) auto
    with Suc.prems show ?thesis by simp
  qed
qed

lemma find_longest_match_inside:
  "inside alo ahi blo bhi (find_longest_match a b alo ahi blo bhi)"
proof -
  have 0: "inside alo ahi blo bhi (alo, blo, 0)" by (simp add: inside_def)
  have z: "lens_ok (alo - alo) blo (\<lambda>j. 0)" by (simp add: lens_ok_def)
  let ?m = "snd (rows a b blo bhi [alo..<ahi] (\<lambda>j. 0, (alo, blo, 0)))"
  have 1: "inside alo ahi blo bhi ?m" by (rule rows_inside [OF order_refl z 0])
  obtain ci cj cs where c: "?m = (ci, cj, cs)" by (cases ?m)
  let ?l = "extend_left a b alo blo (ci, cj, cs)"
  have 2: "inside alo ahi blo bhi ?l" using extend_left_inside 1 c by metis
  obtain di dj ds where d: "?l = (di, dj, ds)" by (cases ?l)
  have "inside alo ahi blo bhi (extend_right a b ahi bhi (di, dj, ds))"
    using extend_right_inside 2 d by metis
  then show ?thesis by (simp add: find_longest_match_def c d)
qed

termination blocks_loop
  apply (relation "measure (\<lambda>(a, b, queue, blocks).
    sum_list (map (\<lambda>(alo, ahi, blo, bhi). 2 * (ahi - alo) + 1) queue))")
    apply simp
  subgoal for a b alo ahi blo bhi
    using find_longest_match_inside [of alo ahi blo bhi a b]
    by (auto simp: inside_def)
  apply simp
  done

text \<open>
  The diff of a list of lines with itself is empty. The inner loop, when every place is
  inside the range of \<open>b\<close>, sets the length at each place of its list and takes the
  places in turn.
\<close>

lemma row_step:
  "j < bhi \<Longrightarrow>
   row i 0 bhi j2len (j # js) (new, (besti, bestj, bestsize)) =
     row i 0 bhi j2len js
       (new(j := (if j = 0 then 0 else j2len (j - 1)) + 1),
        if bestsize < (if j = 0 then 0 else j2len (j - 1)) + 1
        then (i + 1 - ((if j = 0 then 0 else j2len (j - 1)) + 1),
              j + 1 - ((if j = 0 then 0 else j2len (j - 1)) + 1),
              (if j = 0 then 0 else j2len (j - 1)) + 1)
        else (besti, bestj, bestsize))"
  by (simp add: Let_def)

lemma row_append:
  "\<forall>j \<in> set xs. j < bhi \<Longrightarrow>
   row i 0 bhi j2len (xs @ ys) st = row i 0 bhi j2len ys (row i 0 bhi j2len xs st)"
proof (induction xs arbitrary: st)
  case Nil
  then show ?case by simp
next
  case (Cons j xs)
  obtain new besti bestj bestsize where st: "st = (new, (besti, bestj, bestsize))"
    by (cases st) auto
  from Cons.prems have j: "j < bhi" and xs: "\<forall>j \<in> set xs. j < bhi" by simp_all
  show ?case
    unfolding st append_Cons row_step [OF j] by (rule Cons.IH [OF xs])
qed

lemma row_fst:
  "\<forall>j \<in> set js. j < bhi \<Longrightarrow>
   fst (row i 0 bhi j2len js (new, best)) =
     (\<lambda>j. if j \<in> set js then (if j = 0 then 0 else j2len (j - 1)) + 1 else new j)"
proof (induction js arbitrary: new best)
  case Nil
  then show ?case by simp
next
  case (Cons j js)
  obtain besti bestj bestsize where b: "best = (besti, bestj, bestsize)" by (cases best)
  from Cons.prems have j: "j < bhi" and js: "\<forall>j \<in> set js. j < bhi" by simp_all
  show ?case
    unfolding b row_step [OF j] Cons.IH [OF js] by auto
qed

lemma row_keep:
  "\<forall>j \<in> set js. j < bhi \<and> (if j = 0 then 0 else j2len (j - 1)) + 1 \<le> bestsize \<Longrightarrow>
   snd (row i 0 bhi j2len js (new, (besti, bestj, bestsize))) = (besti, bestj, bestsize)"
proof (induction js arbitrary: new)
  case Nil
  then show ?case by simp
next
  case (Cons j js)
  from Cons.prems have j: "j < bhi"
    and k: "\<not> bestsize < (if j = 0 then 0 else j2len (j - 1)) + 1"
    and js: "\<forall>j \<in> set js. j < bhi \<and> (if j = 0 then 0 else j2len (j - 1)) + 1 \<le> bestsize"
    by auto
  show ?case
    unfolding row_step [OF j] using k Cons.IH [OF js] by simp
qed

lemma filter_upt_split:
  assumes "i < n" and "Q i"
  shows "filter Q [0..<n] = filter Q [0..<i] @ [i] @ filter Q [Suc i..<n]"
proof -
  have 1: "[0..<i + (n - i)] = [0..<i] @ [i..<i + (n - i)]"
    by (rule upt_add_eq_append) simp
  have 2: "[i..<n] = i # [Suc i..<n]" using assms(1) by (rule upt_conv_Cons)
  have "[0..<n] = [0..<i] @ [i] @ [Suc i..<n]"
    using 1 2 assms(1) by simp
  then show ?thesis using assms(2) by simp
qed

lemma row_same:
  assumes m: "m < length a" and prev: "row_ok a m prev" and best: "best_ok a m best"
  shows "row_ok a (Suc m) (fst (row m 0 (length a) prev (b2j a (a ! m)) (\<lambda>j. 0, best))) \<and>
         best_ok a (Suc m) (snd (row m 0 (length a) prev (b2j a (a ! m)) (\<lambda>j. 0, best)))"
proof (cases "popular a (a ! m)")
  case True
  then have "b2j a (a ! m) = []" by (simp add: b2j_def)
  moreover have "row_ok a (Suc m) (\<lambda>j. 0)"
    using True by (simp add: row_ok_def run_before.simps)
  moreover have "best_ok a (Suc m) best"
    using best True by (auto simp: best_ok_def le_Suc_eq run_before.simps)
  ultimately show ?thesis by simp
next
  case False
  note np = this
  obtain bi bj bs where b: "best = (bi, bj, bs)" by (cases best)
  from best have diag: "bi = bj" and long: "\<And>j. j \<le> m \<Longrightarrow> run_before a j \<le> bs"
    by (auto simp: best_ok_def b)
  from prev have p1: "\<And>j. prev j \<le> run_before a (Suc j)"
    and p2: "\<And>j. prev j \<le> run_before a m"
    and p3: "0 < m \<Longrightarrow> prev (m - 1) = run_before a m"
    by (auto simp: row_ok_def)
  let ?n = "length a"
  let ?Q = "\<lambda>j. a ! j = a ! m"
  let ?k = "\<lambda>j. (if j = 0 then 0 else prev (j - 1)) + 1"
  let ?js = "filter ?Q [0..<?n]"
  let ?xs = "filter ?Q [0..<m]"
  let ?ys = "filter ?Q [Suc m..<?n]"
  have js: "b2j a (a ! m) = ?js" using np by (simp add: b2j_def)
  have run_m: "run_before a (Suc m) = run_before a m + 1"
    using np by (simp add: run_before.simps)
  have km: "?k m = run_before a (Suc m)"
  proof (cases "m = 0")
    case True
    then show ?thesis using run_m by (simp add: run_before.simps)
  next
    case False
    then show ?thesis using p3 run_m by simp
  qed
  have kb1: "?k j \<le> run_before a (Suc j)" if "a ! j = a ! m" for j
  proof -
    have "run_before a (Suc j) = run_before a j + 1"
      using that np by (simp add: run_before.simps)
    moreover have "(if j = 0 then 0 else prev (j - 1)) \<le> run_before a j"
    proof (cases j)
      case 0
      then show ?thesis by simp
    next
      case (Suc j')
      then show ?thesis using p1 [of j'] by simp
    qed
    ultimately show ?thesis by simp
  qed
  have kb2: "?k j \<le> ?k m" for j
  proof -
    have "(if j = 0 then 0 else prev (j - 1)) \<le> run_before a m" using p2 by simp
    then show ?thesis using km run_m by simp
  qed
  have inside_js: "\<forall>j \<in> set ?js. j < ?n" by simp
  have inside_xs: "\<forall>j \<in> set ?xs. j < ?n" using m by simp
  have split: "?js = ?xs @ [m] @ ?ys" by (rule filter_upt_split [OF m]) simp
  text \<open>The lengths of the row.\<close>
  have new: "fst (row m 0 ?n prev ?js (\<lambda>j. 0, best)) =
      (\<lambda>j. if j \<in> set ?js then ?k j else 0)"
    by (rule row_fst [OF inside_js])
  have "row_ok a (Suc m) (\<lambda>j. if j \<in> set ?js then ?k j else 0)"
    unfolding row_ok_def
  proof (intro conjI allI impI)
    fix j
    show "(if j \<in> set ?js then ?k j else 0) \<le> run_before a (Suc j)"
      using kb1 [of j] by simp
    show "(if j \<in> set ?js then ?k j else 0) \<le> run_before a (Suc m)"
      using kb2 [of j] km by simp
  next
    have mem: "m \<in> set ?js" using m by simp
    show "(if Suc m - 1 \<in> set ?js then ?k (Suc m - 1) else 0) = run_before a (Suc m)"
      unfolding diff_Suc_1 if_P [OF mem] by (rule km)
  qed
  then have 1: "row_ok a (Suc m) (fst (row m 0 ?n prev (b2j a (a ! m)) (\<lambda>j. 0, best)))"
    unfolding js new .
  text \<open>The best match.\<close>
  let ?best = "if bs < ?k m then (m + 1 - ?k m, m + 1 - ?k m, ?k m) else (bi, bj, bs)"
  obtain f1 where r1: "row m 0 ?n prev ?xs (\<lambda>j. 0, best) = (f1, (bi, bj, bs))"
  proof -
    have "\<forall>j \<in> set ?xs. j < ?n \<and> ?k j \<le> bs"
    proof
      fix j assume j: "j \<in> set ?xs"
      then have "j < m" and "a ! j = a ! m" by simp_all
      then have "?k j \<le> run_before a (Suc j)" and "Suc j \<le> m" using kb1 by simp_all
      then have "?k j \<le> bs" using long [of "Suc j"] by simp
      then show "j < ?n \<and> ?k j \<le> bs" using \<open>j < m\<close> m by simp
    qed
    then have "snd (row m 0 ?n prev ?xs (\<lambda>j. 0, (bi, bj, bs))) = (bi, bj, bs)"
      by (rule row_keep)
    then show ?thesis using that unfolding b by (metis prod.collapse)
  qed
  have r2: "row m 0 ?n prev ([m] @ ?ys) (f1, (bi, bj, bs)) =
      row m 0 ?n prev ?ys (f1(m := ?k m), ?best)"
    unfolding append_Cons append_Nil by (rule row_step [OF m])
  have r3: "snd (row m 0 ?n prev ?ys (f1(m := ?k m), ?best)) = ?best"
  proof (cases "bs < ?k m")
    case True
    have "\<forall>j \<in> set ?ys. j < ?n \<and> ?k j \<le> ?k m"
    proof
      fix j assume "j \<in> set ?ys"
      then have "j < ?n" by simp
      then show "j < ?n \<and> ?k j \<le> ?k m" using kb2 [of j] by blast
    qed
    then have "snd (row m 0 ?n prev ?ys (f1(m := ?k m), (m + 1 - ?k m, m + 1 - ?k m, ?k m))) =
        (m + 1 - ?k m, m + 1 - ?k m, ?k m)"
      by (rule row_keep)
    then show ?thesis using True by simp
  next
    case False
    have "\<forall>j \<in> set ?ys. j < ?n \<and> ?k j \<le> bs"
    proof
      fix j assume "j \<in> set ?ys"
      then have "j < ?n" by simp
      moreover have "?k j \<le> bs" using kb2 [of j] False by simp
      ultimately show "j < ?n \<and> ?k j \<le> bs" by simp
    qed
    then have "snd (row m 0 ?n prev ?ys (f1(m := ?k m), (bi, bj, bs))) = (bi, bj, bs)"
      by (rule row_keep)
    then show ?thesis using False by simp
  qed
  have "row m 0 ?n prev ?js (\<lambda>j. 0, best) =
      row m 0 ?n prev ([m] @ ?ys) (row m 0 ?n prev ?xs (\<lambda>j. 0, best))"
    unfolding split by (rule row_append [OF inside_xs])
  then have "row m 0 ?n prev ?js (\<lambda>j. 0, best) =
      row m 0 ?n prev ?ys (f1(m := ?k m), ?best)"
    unfolding r1 r2 .
  then have snd: "snd (row m 0 ?n prev ?js (\<lambda>j. 0, best)) = ?best"
    using r3 by simp
  have "best_ok a (Suc m) ?best"
  proof (cases "bs < ?k m")
    case True
    have "run_before a j' \<le> ?k m" if "j' \<le> Suc m" for j'
    proof (cases "j' = Suc m")
      case True
      then show ?thesis using km by simp
    next
      case False
      with that have "j' \<le> m" by simp
      then have "run_before a j' \<le> bs" by (rule long)
      then show ?thesis using True by simp
    qed
    then show ?thesis using True by (simp add: best_ok_def)
  next
    case False
    have "run_before a j' \<le> bs" if "j' \<le> Suc m" for j'
    proof (cases "j' = Suc m")
      case True
      then show ?thesis using km False by simp
    next
      case False
      with that have "j' \<le> m" by simp
      then show ?thesis by (rule long)
    qed
    then show ?thesis using False diag by (simp add: best_ok_def)
  qed
  then have 2: "best_ok a (Suc m) (snd (row m 0 ?n prev (b2j a (a ! m)) (\<lambda>j. 0, best)))"
    unfolding js snd .
  from 1 2 show ?thesis ..
qed

lemma rows_same:
  assumes "row_ok a m prev" and "best_ok a m best"
  shows "best_ok a (max m (length a))
     (snd (rows a a 0 (length a) [m..<length a] (prev, best)))"
  using assms
proof (induction "length a - m" arbitrary: m prev best)
  case 0
  then show ?case by (simp add: max_def)
next
  case (Suc n)
  then have m: "m < length a" by simp
  then have u: "[m..<length a] = m # [Suc m..<length a]" by (rule upt_conv_Cons)
  let ?r = "row m 0 (length a) prev (b2j a (a ! m)) (\<lambda>j. 0, best)"
  from row_same [OF m Suc.prems]
  have 1: "row_ok a (Suc m) (fst ?r)" and 2: "best_ok a (Suc m) (snd ?r)" by simp_all
  have n: "n = length a - Suc m" using Suc.hyps(2) by simp
  have "rows a a 0 (length a) [m..<length a] (prev, best) =
      rows a a 0 (length a) [Suc m..<length a] (fst ?r, snd ?r)"
    unfolding u by simp
  moreover have "max (Suc m) (length a) = max m (length a)" using m by simp
  ultimately show ?case using Suc.hyps(1) [OF n 1 2] by simp
qed

lemma extend_left_same: "extend_left a a 0 0 (i, i, k) = (0, 0, k + i)"
proof (induction i arbitrary: k)
  case 0
  show ?case by (subst extend_left.simps) simp
next
  case (Suc i)
  have "extend_left a a 0 0 (Suc i, Suc i, k) = extend_left a a 0 0 (i, i, k + 1)"
    by (subst extend_left.simps) simp
  then show ?case using Suc [of "k + 1"] by simp
qed

lemma extend_right_same:
  "k \<le> length a \<Longrightarrow> extend_right a a (length a) (length a) (0, 0, k) = (0, 0, length a)"
proof (induction "length a - k" arbitrary: k)
  case 0
  then have "k = length a" by simp
  then show ?case by (subst extend_right.simps) simp
next
  case (Suc n)
  then have k: "k < length a" by simp
  then have "extend_right a a (length a) (length a) (0, 0, k) =
      extend_right a a (length a) (length a) (0, 0, k + 1)"
    by (subst extend_right.simps) simp
  moreover have "n = length a - (k + 1)" using Suc.hyps(2) by simp
  moreover have "k + 1 \<le> length a" using k by simp
  ultimately show ?case using Suc.hyps(1) [of "k + 1"] by simp
qed

lemma find_longest_match_same:
  "find_longest_match a a 0 (length a) 0 (length a) = (0, 0, length a)"
proof -
  let ?m = "snd (rows a a 0 (length a) [0..<length a] (\<lambda>j. 0, (0, 0, 0)))"
  have 1: "row_ok a 0 (\<lambda>j. 0)" by (simp add: row_ok_def)
  have 2: "best_ok a 0 (0, 0, 0)" by (simp add: best_ok_def run_before.simps)
  obtain i k where m: "?m = (i, i, k)"
    using rows_same [OF 1 2] by (cases ?m) (auto simp: best_ok_def)
  have z: "lens_ok (0 - 0) 0 (\<lambda>j. 0)" by (simp add: lens_ok_def)
  have 0: "inside 0 (length a) 0 (length a) (0, 0, 0)" by (simp add: inside_def)
  have "inside 0 (length a) 0 (length a) ?m" by (rule rows_inside [OF order_refl z 0])
  then have "k + i \<le> length a" unfolding m by (auto simp: inside_def split: if_splits)
  then have "extend_right a a (length a) (length a) (0, 0, k + i) = (0, 0, length a)"
    by (rule extend_right_same)
  then show ?thesis
    unfolding find_longest_match_def m extend_left_same .
qed

lemma get_matching_blocks_same:
  "get_matching_blocks a a =
     (if a = [] then [] else [(0, 0, length a)]) @ [(length a, length a, 0)]"
  by (simp add: get_matching_blocks_def find_longest_match_same sort_matches_def)

lemma get_opcodes_same:
  "get_opcodes a a = (if a = [] then [] else [(Equal, 0, length a, 0, length a)])"
  by (simp add: get_opcodes_def get_matching_blocks_same)

lemma get_grouped_opcodes_same: "get_grouped_opcodes a a n = []"
  by (simp add: get_grouped_opcodes_def get_opcodes_same fix_first_def Let_def)

lemma unified_diff_same: "unified_diff a a fromfile tofile n = []"
  by (simp add: unified_diff_def get_grouped_opcodes_same)

text \<open>
  The first half of claim C5: two contents with the same plain text are rendered as the
  block that says so.
\<close>

lemma no_changes_for_same_text:
  "html_to_text env old_html = html_to_text env new_html \<Longrightarrow>
   html_diff_with_highlighting env fromfile tofile old_html new_html = no_changes"
  by (simp add: html_diff_with_highlighting_def diff_html_def unified_diff_same)

section \<open>Diff renderer\<close>

text \<open>The diff of the two sample texts, up to the names of the files.\<close>

lemma splitlines_a_b: "splitlines (''a'' @ newline @ ''b'') = [''a'' @ newline, ''b'']"
  by code_simp

lemma splitlines_a_c: "splitlines (''a'' @ newline @ ''c'') = [''a'' @ newline, ''c'']"
  by code_simp

lemma grouped_a_b_c:
  "get_grouped_opcodes [''a'' @ newline, ''b''] [''a'' @ newline, ''c''] 3 =
     [[(Equal, 0, 1, 0, 1), (Replace, 1, 2, 1, 2)]]"
  by code_simp

lemma format_range_0_2: "format_range_unified 0 2 = ''1,2''"
  by code_simp

lemma unified_diff_a_b_c:
  "unified_diff [''a'' @ newline, ''b''] [''a'' @ newline, ''c''] fromfile tofile 3 =
     [''--- '' @ fromfile @ newline, ''+++ '' @ tofile @ newline,
      ''@@ -1,2 +1,2 @@'' @ newline, '' a'' @ newline, ''-b'', ''+c'']"
  unfolding unified_diff_def grouped_a_b_c
  by (simp add: group_lines_def opcode_lines_def slice_def format_range_0_2)

lemma escape_append: "escape (xs @ ys) = escape xs @ escape ys"
  by (simp add: escape_def)

lemma escape_newline: "escape newline = newline"
  by code_simp

lemma diff_block_from:
  \<open>diff_block (''--- '' @ fromfile @ newline) =
     ''<div class="diff-removed">- -- '' @ escape fromfile @ newline @ ''</div>''\<close>
  by (simp add: diff_block_def escape_def escape_char_def newline_def)

lemma diff_block_to:
  \<open>diff_block (''+++ '' @ tofile @ newline) =
     ''<div class="diff-added">+ ++ '' @ escape tofile @ newline @ ''</div>''\<close>
  by (simp add: diff_block_def escape_def escape_char_def newline_def)

lemma diff_block_rest:
  \<open>map diff_block [''@@ -1,2 +1,2 @@'' @ newline, '' a'' @ newline, ''-b'', ''+c''] =
     [''<div class="diff-header">@@ -1,2 +1,2 @@'' @ newline @ ''</div>'',
      ''<div class="diff-context"> a'' @ newline @ ''</div>'',
      ''<div class="diff-removed">- b</div>'',
      ''<div class="diff-added">+ c</div>'']\<close>
  by code_simp

lemma diff_html_a_b_c:
  assumes "html_to_text env old_html = ''a'' @ newline @ ''b''"
    and "html_to_text env new_html = ''a'' @ newline @ ''c''"
  shows \<open>diff_html env fromfile tofile old_html new_html =
     [''<div class="diff-removed">- -- '' @ escape fromfile @ newline @ ''</div>'',
      ''<div class="diff-added">+ ++ '' @ escape tofile @ newline @ ''</div>'',
      ''<div class="diff-header">@@ -1,2 +1,2 @@'' @ newline @ ''</div>'',
      ''<div class="diff-context"> a'' @ newline @ ''</div>'',
      ''<div class="diff-removed">- b</div>'',
      ''<div class="diff-added">+ c</div>'']\<close>
proof -
  have "diff_html env fromfile tofile old_html new_html =
      map diff_block (unified_diff [''a'' @ newline, ''b''] [''a'' @ newline, ''c'']
        fromfile tofile 3)"
    by (simp only: diff_html_def assms splitlines_a_b splitlines_a_c Let_def)
  also have "\<dots> = diff_block (''--- '' @ fromfile @ newline) #
      diff_block (''+++ '' @ tofile @ newline) #
      map diff_block [''@@ -1,2 +1,2 @@'' @ newline, '' a'' @ newline, ''-b'', ''+c'']"
    unfolding unified_diff_a_b_c by simp
  finally show ?thesis
    unfolding diff_block_from diff_block_to diff_block_rest .
qed

text \<open>
  Claim C5, where the code departs from it. For two contents whose plain texts are
  \<open>a\nb\<close> and \<open>a\nc\<close>, whatever the two names given to \<open>unified_diff\<close>, the renderer
  yields six blocks: the two lines that name the files come first in the diff, start
  with \<open>-\<close> and \<open>+\<close>, and are rendered as a removed and an added block; then the header of
  the ranges, the context block of \<open>a\<close>, the removed block of \<open>b\<close> and the added block of
  \<open>c\<close>. So the rendered diff holds one context block, two removed blocks and two added
  blocks, not one pair.
\<close>

theorem C5_file_names_rendered_as_changes:
  assumes "html_to_text env old_html = ''a'' @ newline @ ''b''"
    and "html_to_text env new_html = ''a'' @ newline @ ''c''"
  shows \<open>html_diff_with_highlighting env fromfile tofile old_html new_html =
       ''<div class="diff-removed">- -- '' @ escape fromfile @ newline @ ''</div>'' @
       ''<div class="diff-added">+ ++ '' @ escape tofile @ newline @ ''</div>'' @
       ''<div class="diff-header">@@ -1,2 +1,2 @@'' @ newline @ ''</div>'' @
       ''<div class="diff-context"> a'' @ newline @ ''</div>'' @
       ''<div class="diff-removed">- b</div>'' @
       ''<div class="diff-added">+ c</div>'' \<and>
     blocks_of_class ''diff-context'' (diff_html env fromfile tofile old_html new_html) = 1 \<and>
     blocks_of_class ''diff-removed'' (diff_html env fromfile tofile old_html new_html) = 2 \<and>
     blocks_of_class ''diff-added'' (diff_html env fromfile tofile old_html new_html) = 2\<close>
proof -
  note blocks = diff_html_a_b_c [OF assms, of fromfile tofile]
  have 1: \<open>html_diff_with_highlighting env fromfile tofile old_html new_html =
       ''<div class="diff-removed">- -- '' @ escape fromfile @ newline @ ''</div>'' @
       ''<div class="diff-added">+ ++ '' @ escape tofile @ newline @ ''</div>'' @
       ''<div class="diff-header">@@ -1,2 +1,2 @@'' @ newline @ ''</div>'' @
       ''<div class="diff-context"> a'' @ newline @ ''</div>'' @
       ''<div class="diff-removed">- b</div>'' @
       ''<div class="diff-added">+ c</div>''\<close>
    unfolding html_diff_with_highlighting_def blocks by simp
  have 2: "blocks_of_class ''diff-context'' (diff_html env fromfile tofile old_html new_html) = 1"
    unfolding blocks by (simp add: blocks_of_class_def)
  have 3: "blocks_of_class ''diff-removed'' (diff_html env fromfile tofile old_html new_html) = 2"
    unfolding blocks by (simp add: blocks_of_class_def)
  have 4: "blocks_of_class ''diff-added'' (diff_html env fromfile tofile old_html new_html) = 2"
    unfolding blocks by (simp add: blocks_of_class_def)
  from 1 2 3 4 show ?thesis by blast
qed

text \<open>The two texts themselves as contents, compared as version 1 and version 2.\<close>

theorem C5_witness:
  \<open>html_diff_with_highlighting demo_env ''Version 1'' ''Version 2''
       (Some (''a'' @ newline @ ''b'')) (Some (''a'' @ newline @ ''c'')) =
       ''<div class="diff-removed">- -- Version 1'' @ newline @ ''</div>'' @
       ''<div class="diff-added">+ ++ Version 2'' @ newline @ ''</div>'' @
       ''<div class="diff-header">@@ -1,2 +1,2 @@'' @ newline @ ''</div>'' @
       ''<div class="diff-context"> a'' @ newline @ ''</div>'' @
       ''<div class="diff-removed">- b</div>'' @
       ''<div class="diff-added">+ c</div>'' \<and>
     blocks_of_class ''diff-removed''
       (diff_html demo_env ''Version 1'' ''Version 2''
         (Some (''a'' @ newline @ ''b'')) (Some (''a'' @ newline @ ''c''))) = 2 \<and>
     blocks_of_class ''diff-added''
       (diff_html demo_env ''Version 1'' ''Version 2''
         (Some (''a'' @ newline @ ''b'')) (Some (''a'' @ newline @ ''c''))) = 2\<close>
proof -
  have 1: "html_to_text demo_env (Some (''a'' @ newline @ ''b'')) = ''a'' @ newline @ ''b''"
    by code_simp
  have 2: "html_to_text demo_env (Some (''a'' @ newline @ ''c'')) = ''a'' @ newline @ ''c''"
    by code_simp
  have 3: "escape ''Version 1'' = ''Version 1''" by code_simp
  have 4: "escape ''Version 2'' = ''Version 2''" by code_simp
  from C5_file_names_rendered_as_changes [OF 1 2, of "''Version 1''" "''Version 2''"]
  show ?thesis unfolding 3 4 by simp
qed

section \<open>HTTP endpoints\<close>

lemma sublist_trans: "sublist xs ys \<Longrightarrow> sublist ys zs \<Longrightarrow> sublist xs zs"
proof -
  assume "sublist xs ys" and "sublist ys zs"
  then obtain p s p' s' where "ys = p @ xs @ s" and "zs = p' @ ys @ s'"
    by (auto simp: sublist_def)
  then have "zs = (p' @ p) @ xs @ (s @ s')" by simp
  then show ?thesis unfolding sublist_def by blast
qed

lemma line_in_unlines: "l \<in> set ls \<Longrightarrow> sublist l (unlines ls)"
proof -
  assume "l \<in> set ls"
  then obtain ps ss where "ls = ps @ l # ss" by (auto dest: split_list)
  then have "unlines ls = unlines ps @ l @ (newline @ unlines ss)"
    by (simp add: unlines_def)
  then show ?thesis unfolding sublist_def by blast
qed

text \<open>Both comparison pages hold the contents they compare.\<close>

lemma compare_current_page_content:
  \<open>sublist (content_or (content entry) ''<p><em>No content</em></p>'')
     (compare_current_page d entry version diff_content)\<close>
proof -
  let ?c = \<open>content_or (content entry) ''<p><em>No content</em></p>''\<close>
  have "sublist ?c (''                            '' @ ?c)"
    by (rule sublist_in_right) simp
  then show ?thesis
    unfolding compare_current_page_def
    by (intro sublist_in_left, elim sublist_trans, intro line_in_unlines) simp
qed

lemma compare_page_content:
  \<open>sublist (content_or (version_content version1) ''<p><em>No content</em></p>'')
     (compare_page d entry version1 version2 diff_content)\<close>
proof -
  let ?c = \<open>content_or (version_content version1) ''<p><em>No content</em></p>''\<close>
  have "sublist ?c (''                            '' @ ?c)"
    by (rule sublist_in_right) simp
  then show ?thesis
    unfolding compare_page_def
    by (intro sublist_in_left, elim sublist_trans, intro line_in_unlines) simp
qed

lemma first_error_none:
  "\<forall>m. access_error site m (user env) = None \<Longrightarrow> first_error site env ms = None"
  by (induction ms) simp_all

text \<open>
  Claim C2, where the code departs from it. The entry exists, the two versions exist,
  the requesting user is not the owner of the entry, and the access list lets the user
  read the models. Then the two export endpoints answer \<open>not found\<close>, as the claim
  says, but the two comparison endpoints, which ask only whether the records exist,
  answer with their page, and the page holds the content of the first version and, for
  the comparison with the current version, the content of the entry.
\<close>

theorem C2_comparison_serves_other_users:
  assumes "browse_entry d entry_ref = Some entry"
    and "browse_version d version1_id = Some version1"
    and "browse_version d version2_id = Some version2"
    and "user_id entry \<noteq> user env"
    and "\<forall>m. access_error site m (user env) = None"
  shows \<open>export_pdf site env d entry_ref = NotFound \<and>
     export_markdown site env d entry_ref = NotFound \<and>
     compare_versions site env d entry_ref version1_id version2_id =
       Response
         (compare_page d entry version1 version2
           (html_diff_with_highlighting env
             (''Version '' @ str_int (version_number version1))
             (''Version '' @ str_int (version_number version2))
             (version_content version1) (version_content version2)))
         [(''Content-Type'', ''text/html; charset=utf-8'')] \<and>
     compare_with_current site env d entry_ref version1_id =
       Response
         (compare_current_page d entry version1
           (html_diff_with_highlighting env
             (''Version '' @ str_int (version_number version1)) ''Current Version''
             (version_content version1) (content entry)))
         [(''Content-Type'', ''text/html; charset=utf-8'')] \<and>
     sublist (content_or (version_content version1) ''<p><em>No content</em></p>'')
       (compare_page d entry version1 version2
         (html_diff_with_highlighting env
           (''Version '' @ str_int (version_number version1))
           (''Version '' @ str_int (version_number version2))
           (version_content version1) (version_content version2))) \<and>
     sublist (content_or (content entry) ''<p><em>No content</em></p>'')
       (compare_current_page d entry version1
         (html_diff_with_highlighting env
           (''Version '' @ str_int (version_number version1)) ''Current Version''
           (version_content version1) (content entry)))\<close>
proof -
  have a: "access_error site ''journal.entry'' (user env) = None" using assms(5) by simp
  note f = first_error_none [OF assms(5)]
  have 1: "export_pdf site env d entry_ref = NotFound"
    by (simp add: export_pdf_def assms(1,4) a)
  have 2: "export_markdown site env d entry_ref = NotFound"
    by (simp add: export_markdown_def assms(1,4) a)
  have 3: \<open>compare_versions site env d entry_ref version1_id version2_id =
       Response
         (compare_page d entry version1 version2
           (html_diff_with_highlighting env
             (''Version '' @ str_int (version_number version1))
             (''Version '' @ str_int (version_number version2))
             (version_content version1) (version_content version2)))
         [(''Content-Type'', ''text/html; charset=utf-8'')]\<close>
    by (simp add: compare_versions_def assms(1,2,3) f Let_def del: first_error.simps)
  have 4: \<open>compare_with_current site env d entry_ref version1_id =
       Response
         (compare_current_page d entry version1
           (html_diff_with_highlighting env
             (''Version '' @ str_int (version_number version1)) ''Current Version''
             (version_content version1) (content entry)))
         [(''Content-Type'', ''text/html; charset=utf-8'')]\<close>
    by (simp add: compare_with_current_def assms(1,2) f Let_def del: first_error.simps)
  from 1 2 3 4 compare_page_content compare_current_page_content show ?thesis by blast
qed

text \<open>
  The user 8 asks for the sample entry of the user 7, edited once: the export endpoints
  answer \<open>not found\<close>, and the comparison of version 1 with the current version answers
  with a page that holds the current content of the entry.
\<close>

theorem C2_witness:
  \<open>user_id edited_entry \<noteq> user visitor_env \<and>
   export_pdf open_site visitor_env shared_db 1 = NotFound \<and>
   export_markdown open_site visitor_env shared_db 1 = NotFound \<and>
   compare_with_current open_site visitor_env shared_db 1 1 =
     Response
       (compare_current_page shared_db edited_entry first_version
         (html_diff_with_highlighting visitor_env
           (''Version '' @ str_int (version_number first_version)) ''Current Version''
           (version_content first_version) (content edited_entry)))
       [(''Content-Type'', ''text/html; charset=utf-8'')] \<and>
   sublist ''<p>Hello there world</p>''
     (compare_current_page shared_db edited_entry first_version
       (html_diff_with_highlighting visitor_env
         (''Version '' @ str_int (version_number first_version)) ''Current Version''
         (version_content first_version) (content edited_entry)))\<close>
proof -
  have 1: "browse_entry shared_db 1 = Some edited_entry" by code_simp
  have 2: "browse_version shared_db 1 = Some first_version" by code_simp
  have 3: "user_id edited_entry \<noteq> user visitor_env" by code_simp
  have 4: "\<forall>m. access_error open_site m (user visitor_env) = None"
    by (simp add: open_site_def)
  have 5: \<open>content_or (content edited_entry) ''<p><em>No content</em></p>'' =
      ''<p>Hello there world</p>''\<close>
    by code_simp
  from C2_comparison_serves_other_users [OF 1 2 2 3 4] 3 show ?thesis
    unfolding 5 by blast
qed

end
